theory Spec2Isabelle
  imports Main "HOL-Library.Sublist"
begin

section \<open>Data model (models/templates.model.ts)\<close>

text \<open>
  The interfaces of the model file become records. Several interfaces share the field
  names \<open>id\<close>, \<open>name\<close>, \<open>description\<close>, \<open>templateId\<close> and \<open>title\<close>; a record field
  is a constant of the theory, so those fields carry a prefix naming their interface.
  The reference lists (\<open>pageTemplateIds\<close>, \<open>bookTemplateIds\<close>, \<open>pageInstanceIds\<close>,
  \<open>bookInstanceIds\<close>) and the six collections keep the names of the source.
  An optional field (\<open>description?: string\<close>) is a \<open>string option\<close>;
  \<open>Record<string, string>\<close> is an association list in property order.
\<close>

datatype FieldType = ShortText | LongText | Number | Date

record PageTemplateField =
  f_id :: string
  f_name :: string
  f_type :: FieldType
  f_description :: "string option"

record PageTemplate =
  pt_id :: string
  pt_name :: string
  pt_description :: "string option"
  pt_fields :: "PageTemplateField list"

record BookTemplate =
  bt_id :: string
  bt_name :: string
  bt_description :: "string option"
  pageTemplateIds :: "string list"

record CatalogTemplate =
  ct_id :: string
  ct_name :: string
  ct_description :: "string option"
  bookTemplateIds :: "string list"

record PageInstance =
  pi_id :: string
  pi_templateId :: string
  pi_title :: string
  pi_values :: "(string \<times> string) list"

record BookInstance =
  bi_id :: string
  bi_templateId :: string
  bi_title :: string
  pageInstanceIds :: "string list"

record CatalogInstance =
  ci_id :: string
  ci_templateId :: string
  ci_title :: string
  bookInstanceIds :: "string list"

record TemplateState =
  pageTemplates :: "PageTemplate list"
  bookTemplates :: "BookTemplate list"
  catalogTemplates :: "CatalogTemplate list"
  pages :: "PageInstance list"
  books :: "BookInstance list"
  catalogs :: "CatalogInstance list"

definition defaultState :: TemplateState where
  "defaultState =
     \<lparr>pageTemplates = [], bookTemplates = [], catalogTemplates = [],
      pages = [], books = [], catalogs = []\<rparr>"

section \<open>The store (services/template-store.service.ts): state transformers\<close>

text \<open>
  Every public operation of the service reads \<open>stateSubject.value\<close>, computes the next
  snapshot and hands it to \<open>setState\<close>. The snapshot computation is modelled as a function
  from the current snapshot to the next one; \<open>setState\<close> follows further down.
  A JavaScript \<open>Set\<close> of ids is the list it was built from, \<open>has\<close> being membership;
  \<open>some\<close> is \<open>list_ex\<close> and \<open>every\<close> is \<open>list_all\<close>.
\<close>

text \<open>
  \<open>createId\<close> joins the kind prefix to four characters of the clock and six random
  characters. The clock and the random source are outside the program, so the ten
  characters they contribute are an argument (\<open>stamp\<close>) of every create operation.
\<close>

definition createId :: "string \<Rightarrow> string \<Rightarrow> string" where
  "createId kind stamp = kind @ ''-'' @ stamp"

text \<open>
  Each create operation builds the entity from the generated id and the input, appends it
  to its collection and returns it; the copies the source takes of the input lists are
  the lists themselves in a language of values. No create operation looks at the
  reference ids it is given.
\<close>

definition createPageTemplate ::
  "string \<Rightarrow> string \<Rightarrow> string option \<Rightarrow> PageTemplateField list \<Rightarrow> TemplateState
     \<Rightarrow> PageTemplate \<times> TemplateState" where
  "createPageTemplate stamp name description field_list current =
    (let template = \<lparr>pt_id = createId ''pt'' stamp, pt_name = name,
                       pt_description = description,
                       pt_fields = map (\<lambda>field. field) field_list\<rparr>
     in (template, current\<lparr>pageTemplates := pageTemplates current @ [template]\<rparr>))"

definition createBookTemplate ::
  "string \<Rightarrow> string \<Rightarrow> string option \<Rightarrow> string list \<Rightarrow> TemplateState
     \<Rightarrow> BookTemplate \<times> TemplateState" where
  "createBookTemplate stamp name description ids current =
    (let template = \<lparr>bt_id = createId ''bt'' stamp, bt_name = name,
                       bt_description = description, pageTemplateIds = ids\<rparr>
     in (template, current\<lparr>bookTemplates := bookTemplates current @ [template]\<rparr>))"

definition createCatalogTemplate ::
  "string \<Rightarrow> string \<Rightarrow> string option \<Rightarrow> string list \<Rightarrow> TemplateState
     \<Rightarrow> CatalogTemplate \<times> TemplateState" where
  "createCatalogTemplate stamp name description ids current =
    (let template = \<lparr>ct_id = createId ''ct'' stamp, ct_name = name,
                       ct_description = description, bookTemplateIds = ids\<rparr>
     in (template, current\<lparr>catalogTemplates := catalogTemplates current @ [template]\<rparr>))"

definition createPageInstance ::
  "string \<Rightarrow> string \<Rightarrow> string \<Rightarrow> (string \<times> string) list \<Rightarrow> TemplateState
     \<Rightarrow> PageInstance \<times> TemplateState" where
  "createPageInstance stamp templateId title vals current =
    (let instance = \<lparr>pi_id = createId ''p'' stamp, pi_templateId = templateId,
                       pi_title = title, pi_values = vals\<rparr>
     in (instance, current\<lparr>pages := pages current @ [instance]\<rparr>))"

definition createBookInstance ::
  "string \<Rightarrow> string \<Rightarrow> string \<Rightarrow> string list \<Rightarrow> TemplateState
     \<Rightarrow> BookInstance \<times> TemplateState" where
  "createBookInstance stamp templateId title ids current =
    (let instance = \<lparr>bi_id = createId ''b'' stamp, bi_templateId = templateId,
                       bi_title = title, pageInstanceIds = ids\<rparr>
     in (instance, current\<lparr>books := books current @ [instance]\<rparr>))"

definition createCatalogInstance ::
  "string \<Rightarrow> string \<Rightarrow> string \<Rightarrow> string list \<Rightarrow> TemplateState
     \<Rightarrow> CatalogInstance \<times> TemplateState" where
  "createCatalogInstance stamp templateId title ids current =
    (let instance = \<lparr>ci_id = createId ''c'' stamp, ci_templateId = templateId,
                       ci_title = title, bookInstanceIds = ids\<rparr>
     in (instance, current\<lparr>catalogs := catalogs current @ [instance]\<rparr>))"


definition removePageTemplate :: "string \<Rightarrow> TemplateState \<Rightarrow> TemplateState" where
  "removePageTemplate templateId current =
    (let pagesToRemove =
           map pi_id (filter (\<lambda>page. pi_templateId page = templateId) (pages current));
         remainingPages = filter (\<lambda>page. pi_templateId page \<noteq> templateId) (pages current);
         updatedBooks =
           filter (\<lambda>book. length (pageInstanceIds book) > 0)
             (map (\<lambda>book. book\<lparr>pageInstanceIds :=
                      filter (\<lambda>i. i \<notin> set pagesToRemove) (pageInstanceIds book)\<rparr>)
                (books current));
         updatedBookTemplates =
           filter (\<lambda>template. length (pageTemplateIds template) > 0)
             (map (\<lambda>bookTemplate. bookTemplate\<lparr>pageTemplateIds :=
                      filter (\<lambda>i. i \<noteq> templateId) (pageTemplateIds bookTemplate)\<rparr>)
                (bookTemplates current));
         validBookTemplateIds = map bt_id updatedBookTemplates;
         booksAfterTemplateCleanup =
           filter (\<lambda>book. bi_templateId book \<in> set validBookTemplateIds) updatedBooks;
         removedBookIds =
           filter (\<lambda>i. \<not> list_ex (\<lambda>book. bi_id book = i) booksAfterTemplateCleanup)
             (map bi_id (books current));
         cleanedCatalogs =
           filter (\<lambda>catalog. length (bookInstanceIds catalog) > 0)
             (map (\<lambda>catalog. catalog\<lparr>bookInstanceIds :=
                      filter (\<lambda>i. i \<notin> set removedBookIds) (bookInstanceIds catalog)\<rparr>)
                (catalogs current));
         cleanedCatalogTemplates =
           filter (\<lambda>template. length (bookTemplateIds template) > 0)
             (map (\<lambda>catalogTemplate. catalogTemplate\<lparr>bookTemplateIds :=
                      filter (\<lambda>i. i \<in> set validBookTemplateIds)
                        (bookTemplateIds catalogTemplate)\<rparr>)
                (catalogTemplates current))
     in current\<lparr>pageTemplates :=
                   filter (\<lambda>template. pt_id template \<noteq> templateId) (pageTemplates current),
                 pages := remainingPages,
                 bookTemplates := updatedBookTemplates,
                 books := booksAfterTemplateCleanup,
                 catalogTemplates := cleanedCatalogTemplates,
                 catalogs := cleanedCatalogs\<rparr>)"

definition removeBookTemplate :: "string \<Rightarrow> TemplateState \<Rightarrow> TemplateState" where
  "removeBookTemplate templateId current =
    (let booksToRemove =
           map bi_id (filter (\<lambda>book. bi_templateId book = templateId) (books current));
         updatedCatalogs =
           filter (\<lambda>catalog. list_all (\<lambda>i. i \<notin> set booksToRemove) (bookInstanceIds catalog))
             (catalogs current);
         updatedCatalogTemplates =
           filter (\<lambda>template. length (bookTemplateIds template) > 0)
             (map (\<lambda>template. template\<lparr>bookTemplateIds :=
                      filter (\<lambda>i. i \<noteq> templateId) (bookTemplateIds template)\<rparr>)
                (catalogTemplates current))
     in current\<lparr>bookTemplates :=
                   filter (\<lambda>template. bt_id template \<noteq> templateId) (bookTemplates current),
                 books := filter (\<lambda>book. bi_templateId book \<noteq> templateId) (books current),
                 catalogs := updatedCatalogs,
                 catalogTemplates := updatedCatalogTemplates\<rparr>)"

definition removeCatalogTemplate :: "string \<Rightarrow> TemplateState \<Rightarrow> TemplateState" where
  "removeCatalogTemplate templateId current =
     current\<lparr>catalogTemplates :=
                 filter (\<lambda>template. ct_id template \<noteq> templateId) (catalogTemplates current),
              catalogs :=
                 filter (\<lambda>catalog. ci_templateId catalog \<noteq> templateId) (catalogs current)\<rparr>"

definition removePageInstance :: "string \<Rightarrow> TemplateState \<Rightarrow> TemplateState" where
  "removePageInstance pageId current =
    (let updatedBooks =
           filter (\<lambda>book. length (pageInstanceIds book) > 0)
             (map (\<lambda>book. book\<lparr>pageInstanceIds :=
                      filter (\<lambda>i. i \<noteq> pageId) (pageInstanceIds book)\<rparr>)
                (books current));
         removedBookIds =
           filter (\<lambda>i. \<not> list_ex (\<lambda>book. bi_id book = i) updatedBooks)
             (map bi_id (books current));
         updatedCatalogs =
           filter (\<lambda>catalog. length (bookInstanceIds catalog) > 0)
             (map (\<lambda>catalog. catalog\<lparr>bookInstanceIds :=
                      filter (\<lambda>i. i \<notin> set removedBookIds) (bookInstanceIds catalog)\<rparr>)
                (catalogs current))
     in current\<lparr>pages := filter (\<lambda>page. pi_id page \<noteq> pageId) (pages current),
                 books := updatedBooks,
                 catalogs := updatedCatalogs\<rparr>)"

definition removeBookInstance :: "string \<Rightarrow> TemplateState \<Rightarrow> TemplateState" where
  "removeBookInstance bookId current =
     current\<lparr>books := filter (\<lambda>book. bi_id book \<noteq> bookId) (books current),
              catalogs :=
                 filter (\<lambda>catalog. length (bookInstanceIds catalog) > 0)
                   (map (\<lambda>catalog. catalog\<lparr>bookInstanceIds :=
                            filter (\<lambda>i. i \<noteq> bookId) (bookInstanceIds catalog)\<rparr>)
                      (catalogs current))\<rparr>"

definition removeCatalogInstance :: "string \<Rightarrow> TemplateState \<Rightarrow> TemplateState" where
  "removeCatalogInstance catalogId current =
     current\<lparr>catalogs := filter (\<lambda>catalog. ci_id catalog \<noteq> catalogId) (catalogs current)\<rparr>"

definition resetAll :: "TemplateState \<Rightarrow> TemplateState" where
  "resetAll current =
     \<lparr>pageTemplates = [], bookTemplates = [], catalogTemplates = [],
      pages = [], books = [], catalogs = []\<rparr>"

section \<open>Persistence (safeParseState, loadState, persistState)\<close>

text \<open>
  The values \<open>JSON.parse\<close> returns. The payload of a number is never inspected by the
  program.
\<close>

datatype json =
  JNull | JBool bool | JNum int | JStr string | JArr "json list" | JObj "(string \<times> json) list"

datatype error = SyntaxError | QuotaExceededError

text \<open>
  \<open>JSON.parse\<close> and \<open>JSON.stringify\<close> belong to the platform, not to the repository:
  they are parameters of the model. \<open>parse\<close> returns \<open>Inl SyntaxError\<close> where the
  platform's function throws.
\<close>

record JSON =
  parse :: "string \<Rightarrow> error + json"
  stringify :: "json \<Rightarrow> string"

text \<open>
  \<open>window.localStorage\<close>: a map from keys to strings. \<open>setItem\<close> throws when the medium
  refuses the value; the model refuses a value longer than the quota. The environment of
  the service is a \<open>localStorage option\<close>, \<open>None\<close> where \<open>window\<close> or
  \<open>window.localStorage\<close> is undefined.
\<close>

record localStorage =
  items :: "string \<rightharpoonup> string"
  quota :: nat


definition setItem :: "localStorage \<Rightarrow> string \<Rightarrow> string \<Rightarrow> error + localStorage" where
  "setItem ls key v =
     (if length v > quota ls then Inl QuotaExceededError
      else Inr (ls\<lparr>items := (items ls)(key \<mapsto> v)\<rparr>))"

definition STORAGE_KEY :: string where
  "STORAGE_KEY = ''developer-portal-template-state''"

text \<open>
  The JavaScript value of each entity, as \<open>JSON.stringify\<close> receives it: an object with
  one property per field of the interface; a property whose value is \<open>undefined\<close> is
  left out.
\<close>

definition json_of_FieldType :: "FieldType \<Rightarrow> json" where
  "json_of_FieldType t =
     JStr (case t of ShortText \<Rightarrow> ''short-text'' | LongText \<Rightarrow> ''long-text''
                   | Number \<Rightarrow> ''number'' | Date \<Rightarrow> ''date'')"

definition json_of_description :: "string option \<Rightarrow> (string \<times> json) list" where
  "json_of_description d = (case d of None \<Rightarrow> [] | Some text \<Rightarrow> [(''description'', JStr text)])"

definition json_of_ids :: "string list \<Rightarrow> json" where
  "json_of_ids ids = JArr (map JStr ids)"

definition json_of_PageTemplateField :: "PageTemplateField \<Rightarrow> json" where
  "json_of_PageTemplateField f =
     JObj ([(''id'', JStr (f_id f)), (''name'', JStr (f_name f)),
            (''type'', json_of_FieldType (f_type f))] @ json_of_description (f_description f))"

definition json_of_PageTemplate :: "PageTemplate \<Rightarrow> json" where
  "json_of_PageTemplate t =
     JObj ([(''id'', JStr (pt_id t)), (''name'', JStr (pt_name t))]
           @ json_of_description (pt_description t)
           @ [(''fields'', JArr (map json_of_PageTemplateField (pt_fields t)))])"

definition json_of_BookTemplate :: "BookTemplate \<Rightarrow> json" where
  "json_of_BookTemplate t =
     JObj ([(''id'', JStr (bt_id t)), (''name'', JStr (bt_name t))]
           @ json_of_description (bt_description t)
           @ [(''pageTemplateIds'', json_of_ids (pageTemplateIds t))])"

definition json_of_CatalogTemplate :: "CatalogTemplate \<Rightarrow> json" where
  "json_of_CatalogTemplate t =
     JObj ([(''id'', JStr (ct_id t)), (''name'', JStr (ct_name t))]
           @ json_of_description (ct_description t)
           @ [(''bookTemplateIds'', json_of_ids (bookTemplateIds t))])"

definition json_of_PageInstance :: "PageInstance \<Rightarrow> json" where
  "json_of_PageInstance p =
     JObj [(''id'', JStr (pi_id p)), (''templateId'', JStr (pi_templateId p)),
           (''title'', JStr (pi_title p)),
           (''values'', JObj (map (\<lambda>(k, v). (k, JStr v)) (pi_values p)))]"

definition json_of_BookInstance :: "BookInstance \<Rightarrow> json" where
  "json_of_BookInstance b =
     JObj [(''id'', JStr (bi_id b)), (''templateId'', JStr (bi_templateId b)),
           (''title'', JStr (bi_title b)),
           (''pageInstanceIds'', json_of_ids (pageInstanceIds b))]"

definition json_of_CatalogInstance :: "CatalogInstance \<Rightarrow> json" where
  "json_of_CatalogInstance c =
     JObj [(''id'', JStr (ci_id c)), (''templateId'', JStr (ci_templateId c)),
           (''title'', JStr (ci_title c)),
           (''bookInstanceIds'', json_of_ids (bookInstanceIds c))]"

text \<open>
  The type annotation \<open>TemplateState\<close> on what \<open>safeParseState\<close> returns is not checked
  at run time: the six properties hold whatever \<open>JSON.parse\<close> produced. The state as it
  exists at run time is therefore a record of six JavaScript values, and \<open>js_of_state\<close>
  is the run-time value of a well-typed state. Two states are deep-equal when their
  run-time values are equal.
\<close>

record StoredState =
  stored_pageTemplates :: json
  stored_bookTemplates :: json
  stored_catalogTemplates :: json
  stored_pages :: json
  stored_books :: json
  stored_catalogs :: json

definition js_of_state :: "TemplateState \<Rightarrow> StoredState" where
  "js_of_state s =
     \<lparr>stored_pageTemplates = JArr (map json_of_PageTemplate (pageTemplates s)),
      stored_bookTemplates = JArr (map json_of_BookTemplate (bookTemplates s)),
      stored_catalogTemplates = JArr (map json_of_CatalogTemplate (catalogTemplates s)),
      stored_pages = JArr (map json_of_PageInstance (pages s)),
      stored_books = JArr (map json_of_BookInstance (books s)),
      stored_catalogs = JArr (map json_of_CatalogInstance (catalogs s))\<rparr>"

definition json_of_StoredState :: "StoredState \<Rightarrow> json" where
  "json_of_StoredState st =
     JObj [(''pageTemplates'', stored_pageTemplates st),
           (''bookTemplates'', stored_bookTemplates st),
           (''catalogTemplates'', stored_catalogTemplates st),
           (''pages'', stored_pages st),
           (''books'', stored_books st),
           (''catalogs'', stored_catalogs st)]"







definition persistState ::
  "JSON \<Rightarrow> TemplateState \<Rightarrow> localStorage option \<Rightarrow> localStorage option" where
  "persistState J state window_localStorage =
     (case window_localStorage of
        None \<Rightarrow> None
      | Some ls \<Rightarrow>
          (case setItem ls STORAGE_KEY (stringify J (json_of_StoredState (js_of_state state))) of
             Inl err \<Rightarrow> Some ls
           | Inr ls' \<Rightarrow> Some ls'))"

section \<open>The service: publication and the operations as requests\<close>

text \<open>
  The service holds the current snapshot (\<open>stateSubject.value\<close>) and the storage of its
  environment; \<open>published\<close> records, in order, every snapshot handed to
  \<open>stateSubject.next\<close>. \<open>setState\<close> publishes the snapshot and then persists it.
\<close>

record TemplateStoreService =
  stateSubject :: TemplateState
  published :: "TemplateState list"
  window_localStorage :: "localStorage option"

definition setState :: "JSON \<Rightarrow> TemplateState \<Rightarrow> TemplateStoreService \<Rightarrow> TemplateStoreService" where
  "setState J state svc =
     svc\<lparr>stateSubject := state,
         published := published svc @ [state],
         window_localStorage := persistState J state (window_localStorage svc)\<rparr>"

datatype op =
    CreatePageTemplate string string "string option" "PageTemplateField list"
  | CreateBookTemplate string string "string option" "string list"
  | CreateCatalogTemplate string string "string option" "string list"
  | CreatePageInstance string string string "(string \<times> string) list"
  | CreateBookInstance string string string "string list"
  | CreateCatalogInstance string string string "string list"
  | RemovePageTemplate string
  | RemoveBookTemplate string
  | RemoveCatalogTemplate string
  | RemovePageInstance string
  | RemoveBookInstance string
  | RemoveCatalogInstance string

fun next_state :: "op \<Rightarrow> TemplateState \<Rightarrow> TemplateState" where
  "next_state (CreatePageTemplate stamp name d fs) s = snd (createPageTemplate stamp name d fs s)"
| "next_state (CreateBookTemplate stamp name d ids) s = snd (createBookTemplate stamp name d ids s)"
| "next_state (CreateCatalogTemplate stamp name d ids) s = snd (createCatalogTemplate stamp name d ids s)"
| "next_state (CreatePageInstance stamp t title vals) s = snd (createPageInstance stamp t title vals s)"
| "next_state (CreateBookInstance stamp t title ids) s = snd (createBookInstance stamp t title ids s)"
| "next_state (CreateCatalogInstance stamp t title ids) s = snd (createCatalogInstance stamp t title ids s)"
| "next_state (RemovePageTemplate x) s = removePageTemplate x s"
| "next_state (RemoveBookTemplate x) s = removeBookTemplate x s"
| "next_state (RemoveCatalogTemplate x) s = removeCatalogTemplate x s"
| "next_state (RemovePageInstance x) s = removePageInstance x s"
| "next_state (RemoveBookInstance x) s = removeBookInstance x s"
| "next_state (RemoveCatalogInstance x) s = removeCatalogInstance x s"

text \<open>A public method applied to the service, and a sequence of them.\<close>

definition request :: "JSON \<Rightarrow> op \<Rightarrow> TemplateStoreService \<Rightarrow> TemplateStoreService" where
  "request J c svc = setState J (next_state c (stateSubject svc)) svc"

fun requests :: "JSON \<Rightarrow> op list \<Rightarrow> TemplateStoreService \<Rightarrow> TemplateStoreService" where
  "requests J [] svc = svc"
| "requests J (c # cs) svc = requests J cs (request J c svc)"

definition empty_service :: "localStorage option \<Rightarrow> TemplateStoreService" where
  "empty_service env = \<lparr>stateSubject = defaultState, published = [], window_localStorage = env\<rparr>"

section \<open>The invariants of the data model and the caller's contract\<close>

text \<open>
  Invariant 1: every instance names a template that is in the corresponding template
  collection; one predicate per instance kind.
\<close>

definition invariant1_pages :: "TemplateState \<Rightarrow> bool" where
  "invariant1_pages s =
     list_all (\<lambda>p. pi_templateId p \<in> set (map pt_id (pageTemplates s))) (pages s)"

definition invariant1_books :: "TemplateState \<Rightarrow> bool" where
  "invariant1_books s =
     list_all (\<lambda>b. bi_templateId b \<in> set (map bt_id (bookTemplates s))) (books s)"

definition invariant1_catalogs :: "TemplateState \<Rightarrow> bool" where
  "invariant1_catalogs s =
     list_all (\<lambda>c. ci_templateId c \<in> set (map ct_id (catalogTemplates s))) (catalogs s)"

definition invariant1 :: "TemplateState \<Rightarrow> bool" where
  "invariant1 s = (invariant1_pages s \<and> invariant1_books s \<and> invariant1_catalogs s)"

text \<open>Invariant 2: every page id listed by a BookInstance is the id of a PageInstance.\<close>

definition invariant2 :: "TemplateState \<Rightarrow> bool" where
  "invariant2 s =
     list_all (\<lambda>b. list_all (\<lambda>i. i \<in> set (map pi_id (pages s))) (pageInstanceIds b)) (books s)"

text \<open>Invariant 3: every book id listed by a CatalogInstance is the id of a BookInstance.\<close>

definition invariant3 :: "TemplateState \<Rightarrow> bool" where
  "invariant3 s =
     list_all (\<lambda>c. list_all (\<lambda>i. i \<in> set (map bi_id (books s))) (bookInstanceIds c)) (catalogs s)"

text \<open>
  Invariant 4: every template id listed by a BookTemplate or a CatalogTemplate is in the
  referenced template collection. That a composite template does not stay with an empty
  list is \<open>composites_nonempty\<close>; \<open>instances_nonempty\<close> says the same of the two
  composite instance kinds.
\<close>

definition invariant4 :: "TemplateState \<Rightarrow> bool" where
  "invariant4 s =
     (list_all (\<lambda>t. list_all (\<lambda>i. i \<in> set (map pt_id (pageTemplates s))) (pageTemplateIds t))
        (bookTemplates s) \<and>
      list_all (\<lambda>t. list_all (\<lambda>i. i \<in> set (map bt_id (bookTemplates s))) (bookTemplateIds t))
        (catalogTemplates s))"

definition composites_nonempty :: "TemplateState \<Rightarrow> bool" where
  "composites_nonempty s =
     (list_all (\<lambda>t. pageTemplateIds t \<noteq> []) (bookTemplates s) \<and>
      list_all (\<lambda>t. bookTemplateIds t \<noteq> []) (catalogTemplates s))"

definition instances_nonempty :: "TemplateState \<Rightarrow> bool" where
  "instances_nonempty s =
     (list_all (\<lambda>b. pageInstanceIds b \<noteq> []) (books s) \<and>
      list_all (\<lambda>c. bookInstanceIds c \<noteq> []) (catalogs s))"

text \<open>
  A state in which every reference resolves and no reference list is empty.
\<close>

definition steady :: "TemplateState \<Rightarrow> bool" where
  "steady s =
     (invariant1 s \<and> invariant2 s \<and> invariant3 s \<and> invariant4 s \<and>
      composites_nonempty s \<and> instances_nonempty s)"

text \<open>
  The caller's contract of the create operations (invariant 5 of the data model): the
  reference ids handed to a create operation are ids of the current state. A remove
  operation has no precondition.
\<close>

fun references_exist :: "op \<Rightarrow> TemplateState \<Rightarrow> bool" where
  "references_exist (CreatePageTemplate stamp name d fs) s = True"
| "references_exist (CreateBookTemplate stamp name d ids) s =
     list_all (\<lambda>i. i \<in> set (map pt_id (pageTemplates s))) ids"
| "references_exist (CreateCatalogTemplate stamp name d ids) s =
     list_all (\<lambda>i. i \<in> set (map bt_id (bookTemplates s))) ids"
| "references_exist (CreatePageInstance stamp t title vals) s =
     (t \<in> set (map pt_id (pageTemplates s)))"
| "references_exist (CreateBookInstance stamp t title ids) s =
     (t \<in> set (map bt_id (bookTemplates s)) \<and>
      list_all (\<lambda>i. i \<in> set (map pi_id (pages s))) ids)"
| "references_exist (CreateCatalogInstance stamp t title ids) s =
     (t \<in> set (map ct_id (catalogTemplates s)) \<and>
      list_all (\<lambda>i. i \<in> set (map bi_id (books s))) ids)"
| "references_exist _ s = True"

fun trusted :: "op list \<Rightarrow> TemplateState \<Rightarrow> bool" where
  "trusted [] s = True"
| "trusted (c # cs) s = (references_exist c s \<and> trusted cs (next_state c s))"

fun composite_given_references :: "op \<Rightarrow> bool" where
  "composite_given_references (CreateBookTemplate stamp name d ids) = (ids \<noteq> [])"
| "composite_given_references (CreateCatalogTemplate stamp name d ids) = (ids \<noteq> [])"
| "composite_given_references _ = True"

text \<open>The snapshots a sequence of operations produces, one per operation, in order.\<close>

fun snapshots :: "op list \<Rightarrow> TemplateState \<Rightarrow> TemplateState list" where
  "snapshots [] s = []"
| "snapshots (c # cs) s = next_state c s # snapshots cs (next_state c s)"

text \<open>
  A remove operation whose target id is not the id of any entity of the target kind.
\<close>

fun absent_target :: "op \<Rightarrow> TemplateState \<Rightarrow> bool" where
  "absent_target (RemovePageTemplate x) s = (x \<notin> set (map pt_id (pageTemplates s)))"
| "absent_target (RemoveBookTemplate x) s = (x \<notin> set (map bt_id (bookTemplates s)))"
| "absent_target (RemoveCatalogTemplate x) s = (x \<notin> set (map ct_id (catalogTemplates s)))"
| "absent_target (RemovePageInstance x) s = (x \<notin> set (map pi_id (pages s)))"
| "absent_target (RemoveBookInstance x) s = (x \<notin> set (map bi_id (books s)))"
| "absent_target (RemoveCatalogInstance x) s = (x \<notin> set (map ci_id (catalogs s)))"
| "absent_target _ s = False"

text \<open>
  Order preservation between a state and its successor: in each of the six collections
  the ids after are a subsequence of the ids before.
\<close>

definition order_preserved :: "TemplateState \<Rightarrow> TemplateState \<Rightarrow> bool" where
  "order_preserved s' s =
     (subseq (map pt_id (pageTemplates s')) (map pt_id (pageTemplates s)) \<and>
      subseq (map bt_id (bookTemplates s')) (map bt_id (bookTemplates s)) \<and>
      subseq (map ct_id (catalogTemplates s')) (map ct_id (catalogTemplates s)) \<and>
      subseq (map pi_id (pages s')) (map pi_id (pages s)) \<and>
      subseq (map bi_id (books s')) (map bi_id (books s)) \<and>
      subseq (map ci_id (catalogs s')) (map ci_id (catalogs s)))"

section \<open>Tables and example states\<close>


text \<open>
  Example states and operation sequences, used to evaluate the operations on concrete
  inputs. \<open>library\<close> is a state in which every reference resolves; \<open>scenario1\<close> is
  the first scenario of the specification (its state before the removal is
  \<open>scenario1_built\<close>); \<open>orphan_catalog\<close> creates a catalog instance whose books belong
  to another book template than its catalog template lists.
\<close>

definition library :: TemplateState where
  "library =
     \<lparr>pageTemplates = [\<lparr>pt_id = ''pt-1'', pt_name = ''Chapter'', pt_description = None,
                        pt_fields = [\<lparr>f_id = ''field-1'', f_name = ''Body'', f_type = ShortText,
                                      f_description = None\<rparr>]\<rparr>],
      bookTemplates = [\<lparr>bt_id = ''bt-1'', bt_name = ''Guide'', bt_description = None,
                        pageTemplateIds = [''pt-1'']\<rparr>,
                       \<lparr>bt_id = ''bt-2'', bt_name = ''Manual'', bt_description = None,
                        pageTemplateIds = [''pt-1'']\<rparr>],
      catalogTemplates = [\<lparr>ct_id = ''ct-1'', ct_name = ''Shelf'', ct_description = None,
                           bookTemplateIds = [''bt-1'', ''bt-2'']\<rparr>],
      pages = [\<lparr>pi_id = ''p-1'', pi_templateId = ''pt-1'', pi_title = ''One'',
                pi_values = [(''field-1'', ''hi'')]\<rparr>,
               \<lparr>pi_id = ''p-2'', pi_templateId = ''pt-1'', pi_title = ''Two'',
                pi_values = [(''field-1'', ''ho'')]\<rparr>],
      books = [\<lparr>bi_id = ''b-1'', bi_templateId = ''bt-1'', bi_title = ''B1'',
                pageInstanceIds = [''p-1'', ''p-2'']\<rparr>,
               \<lparr>bi_id = ''b-2'', bi_templateId = ''bt-2'', bi_title = ''B2'',
                pageInstanceIds = [''p-1'']\<rparr>],
      catalogs = [\<lparr>ci_id = ''c-1'', ci_templateId = ''ct-1'', ci_title = ''C1'',
                   bookInstanceIds = [''b-1'', ''b-2'']\<rparr>,
                  \<lparr>ci_id = ''c-2'', ci_templateId = ''ct-1'', ci_title = ''C2'',
                   bookInstanceIds = [''b-2'']\<rparr>]\<rparr>"

definition library_with_empty_book :: TemplateState where
  "library_with_empty_book =
     library\<lparr>books := books library @
                 [\<lparr>bi_id = ''b-3'', bi_templateId = ''bt-2'', bi_title = ''B3'',
                   pageInstanceIds = []\<rparr>],
              catalogs := catalogs library @
                 [\<lparr>ci_id = ''c-3'', ci_templateId = ''ct-1'', ci_title = ''C3'',
                   bookInstanceIds = [''b-3'']\<rparr>]\<rparr>"

definition scenario1 :: "op list" where
  "scenario1 =
     [CreatePageTemplate ''1'' ''PT1'' None
        [\<lparr>f_id = ''field-1'', f_name = ''F1'', f_type = ShortText, f_description = None\<rparr>],
      CreatePageInstance ''1'' ''pt-1'' ''P1'' [(''field-1'', ''hi'')],
      CreateBookTemplate ''1'' ''BT1'' None [''pt-1''],
      CreateBookInstance ''1'' ''bt-1'' ''B1'' [''p-1''],
      RemovePageTemplate ''pt-1'']"

definition scenario1_built :: TemplateState where
  "scenario1_built =
     \<lparr>pageTemplates = [\<lparr>pt_id = ''pt-1'', pt_name = ''PT1'', pt_description = None,
                        pt_fields = [\<lparr>f_id = ''field-1'', f_name = ''F1'', f_type = ShortText,
                                      f_description = None\<rparr>]\<rparr>],
      bookTemplates = [\<lparr>bt_id = ''bt-1'', bt_name = ''BT1'', bt_description = None,
                        pageTemplateIds = [''pt-1'']\<rparr>],
      catalogTemplates = [],
      pages = [\<lparr>pi_id = ''p-1'', pi_templateId = ''pt-1'', pi_title = ''P1'',
                pi_values = [(''field-1'', ''hi'')]\<rparr>],
      books = [\<lparr>bi_id = ''b-1'', bi_templateId = ''bt-1'', bi_title = ''B1'',
                pageInstanceIds = [''p-1'']\<rparr>],
      catalogs = []\<rparr>"

definition snapshot_JSON :: "TemplateState \<Rightarrow> JSON" where
  "snapshot_JSON s =
     \<lparr>parse = (\<lambda>r. if r = ''snapshot'' then Inr (json_of_StoredState (js_of_state s))
                     else Inl SyntaxError),
      stringify = (\<lambda>j. ''snapshot'')\<rparr>"

definition roomy_storage :: localStorage where
  "roomy_storage = \<lparr>items = Map.empty, quota = 5000000\<rparr>"

definition offline_JSON :: JSON where
  "offline_JSON = \<lparr>parse = (\<lambda>r. Inl SyntaxError), stringify = (\<lambda>j. [])\<rparr>"

definition orphan_catalog :: "op list" where
  "orphan_catalog =
     [CreatePageTemplate ''1'' ''PT1'' None [],
      CreateBookTemplate ''1'' ''BT1'' None [''pt-1''],
      CreateBookTemplate ''2'' ''BT2'' None [''pt-1''],
      CreateCatalogTemplate ''1'' ''CT1'' None [''bt-1''],
      CreatePageInstance ''1'' ''pt-1'' ''P1'' [],
      CreateBookInstance ''2'' ''bt-2'' ''B2'' [''p-1''],
      CreateCatalogInstance ''1'' ''ct-1'' ''C1'' [''b-2''],
      RemoveBookTemplate ''bt-1'']"



section \<open>What each remove operation leaves in each collection\<close>

lemma keep_all: "(\<And>x. x \<in> set xs \<Longrightarrow> f x = x \<and> P x) \<Longrightarrow> filter P (map f xs) = xs"
  by (induction xs) auto

lemma removed_set:
  "set (filter (\<lambda>i. \<not> list_ex (\<lambda>b. bi_id b = i) bs') (map bi_id bs)) = bi_id ` set bs - bi_id ` set bs'"
  by (force simp: list_ex_iff image_iff)

lemmas unfold_aux = Let_def TemplateState.simps length_greater_0_conv removed_set
  set_map list_all_iff

lemma pages_rPI: "pages (removePageInstance x s) = filter (\<lambda>p. pi_id p \<noteq> x) (pages s)"
  and pageTemplates_rPI: "pageTemplates (removePageInstance x s) = pageTemplates s"
  and bookTemplates_rPI: "bookTemplates (removePageInstance x s) = bookTemplates s"
  and catalogTemplates_rPI: "catalogTemplates (removePageInstance x s) = catalogTemplates s"
  and books_rPI: "books (removePageInstance x s) =
     filter (\<lambda>b. pageInstanceIds b \<noteq> [])
       (map (\<lambda>b. b\<lparr>pageInstanceIds := filter (\<lambda>i. i \<noteq> x) (pageInstanceIds b)\<rparr>) (books s))"
  and catalogs_rPI: "catalogs (removePageInstance x s) =
     filter (\<lambda>c. bookInstanceIds c \<noteq> [])
       (map (\<lambda>c. c\<lparr>bookInstanceIds :=
          filter (\<lambda>i. i \<notin> bi_id ` set (books s) - bi_id ` set (books (removePageInstance x s)))
             (bookInstanceIds c)\<rparr>) (catalogs s))"
  by (cases s; simp only: removePageInstance_def unfold_aux)+

lemma pageTemplates_rPT:
    "pageTemplates (removePageTemplate t s) = filter (\<lambda>p. pt_id p \<noteq> t) (pageTemplates s)"
  and pages_rPT:
    "pages (removePageTemplate t s) = filter (\<lambda>p. pi_templateId p \<noteq> t) (pages s)"
  and bookTemplates_rPT:
    "bookTemplates (removePageTemplate t s) =
       filter (\<lambda>b. pageTemplateIds b \<noteq> [])
         (map (\<lambda>b. b\<lparr>pageTemplateIds := filter (\<lambda>i. i \<noteq> t) (pageTemplateIds b)\<rparr>)
            (bookTemplates s))"
  and books_rPT:
  "books (removePageTemplate t s) =
     filter (\<lambda>b. bi_templateId b \<in> bt_id ` set (bookTemplates (removePageTemplate t s)))
       (filter (\<lambda>b. pageInstanceIds b \<noteq> [])
          (map (\<lambda>b. b\<lparr>pageInstanceIds :=
                  filter (\<lambda>i. i \<notin> pi_id ` set (filter (\<lambda>p. pi_templateId p = t) (pages s)))
                    (pageInstanceIds b)\<rparr>) (books s)))"
  and catalogs_rPT:
  "catalogs (removePageTemplate t s) =
     filter (\<lambda>c. bookInstanceIds c \<noteq> [])
       (map (\<lambda>c. c\<lparr>bookInstanceIds :=
          filter (\<lambda>i. i \<notin> bi_id ` set (books s) - bi_id ` set (books (removePageTemplate t s)))
             (bookInstanceIds c)\<rparr>) (catalogs s))"
  and catalogTemplates_rPT:
  "catalogTemplates (removePageTemplate t s) =
     filter (\<lambda>c. bookTemplateIds c \<noteq> [])
       (map (\<lambda>c. c\<lparr>bookTemplateIds :=
          filter (\<lambda>i. i \<in> bt_id ` set (bookTemplates (removePageTemplate t s)))
             (bookTemplateIds c)\<rparr>) (catalogTemplates s))"
  by (cases s; simp only: removePageTemplate_def unfold_aux)+

lemma pages_rBT: "pages (removeBookTemplate t s) = pages s"
  and pageTemplates_rBT: "pageTemplates (removeBookTemplate t s) = pageTemplates s"
  and bookTemplates_rBT:
    "bookTemplates (removeBookTemplate t s) = filter (\<lambda>b. bt_id b \<noteq> t) (bookTemplates s)"
  and books_rBT:
    "books (removeBookTemplate t s) = filter (\<lambda>b. bi_templateId b \<noteq> t) (books s)"
  and catalogTemplates_rBT:
    "catalogTemplates (removeBookTemplate t s) =
       filter (\<lambda>c. bookTemplateIds c \<noteq> [])
         (map (\<lambda>c. c\<lparr>bookTemplateIds := filter (\<lambda>i. i \<noteq> t) (bookTemplateIds c)\<rparr>)
            (catalogTemplates s))"
  and catalogs_rBT:
    "catalogs (removeBookTemplate t s) =
       filter (\<lambda>c. \<forall>i \<in> set (bookInstanceIds c).
                 i \<notin> bi_id ` set (filter (\<lambda>b. bi_templateId b = t) (books s))) (catalogs s)"
  by (cases s; simp only: removeBookTemplate_def unfold_aux)+

lemma fields_rCT:
  "pageTemplates (removeCatalogTemplate t s) = pageTemplates s"
  "bookTemplates (removeCatalogTemplate t s) = bookTemplates s"
  "catalogTemplates (removeCatalogTemplate t s) = filter (\<lambda>c. ct_id c \<noteq> t) (catalogTemplates s)"
  "pages (removeCatalogTemplate t s) = pages s"
  "books (removeCatalogTemplate t s) = books s"
  "catalogs (removeCatalogTemplate t s) = filter (\<lambda>c. ci_templateId c \<noteq> t) (catalogs s)"
  by (cases s; simp only: removeCatalogTemplate_def unfold_aux)+

lemma fields_rBI:
  "pageTemplates (removeBookInstance x s) = pageTemplates s"
  "bookTemplates (removeBookInstance x s) = bookTemplates s"
  "catalogTemplates (removeBookInstance x s) = catalogTemplates s"
  "pages (removeBookInstance x s) = pages s"
  "books (removeBookInstance x s) = filter (\<lambda>b. bi_id b \<noteq> x) (books s)"
  "catalogs (removeBookInstance x s) =
     filter (\<lambda>c. bookInstanceIds c \<noteq> [])
       (map (\<lambda>c. c\<lparr>bookInstanceIds := filter (\<lambda>i. i \<noteq> x) (bookInstanceIds c)\<rparr>) (catalogs s))"
  by (cases s; simp only: removeBookInstance_def unfold_aux)+

lemma fields_rCI:
  "pageTemplates (removeCatalogInstance x s) = pageTemplates s"
  "bookTemplates (removeCatalogInstance x s) = bookTemplates s"
  "catalogTemplates (removeCatalogInstance x s) = catalogTemplates s"
  "pages (removeCatalogInstance x s) = pages s"
  "books (removeCatalogInstance x s) = books s"
  "catalogs (removeCatalogInstance x s) = filter (\<lambda>c. ci_id c \<noteq> x) (catalogs s)"
  by (cases s; simp only: removeCatalogInstance_def unfold_aux)+

section \<open>Stripped collections\<close>

lemmas fields_rPI = pages_rPI pageTemplates_rPI bookTemplates_rPI catalogTemplates_rPI

lemmas fields_rBT = pages_rBT pageTemplates_rBT bookTemplates_rBT books_rBT

lemmas fields_rPT = pageTemplates_rPT pages_rPT

lemma strip_fix_books:
  "set (pageInstanceIds b) \<subseteq> {i. P i} \<Longrightarrow> b\<lparr>pageInstanceIds := filter P (pageInstanceIds b)\<rparr> = b"
  by (simp add: filter_id_conv subset_iff)

lemma strip_fix_catalogs:
  "set (bookInstanceIds c) \<subseteq> {i. P i} \<Longrightarrow> c\<lparr>bookInstanceIds := filter P (bookInstanceIds c)\<rparr> = c"
  by (simp add: filter_id_conv subset_iff)

lemma strip_fix_bookTemplates:
  "set (pageTemplateIds b) \<subseteq> {i. P i} \<Longrightarrow> b\<lparr>pageTemplateIds := filter P (pageTemplateIds b)\<rparr> = b"
  by (simp add: filter_id_conv subset_iff)

lemma strip_fix_catalogTemplates:
  "set (bookTemplateIds c) \<subseteq> {i. P i} \<Longrightarrow> c\<lparr>bookTemplateIds := filter P (bookTemplateIds c)\<rparr> = c"
  by (simp add: filter_id_conv subset_iff)

lemma in_stripped_books:
  "b \<in> set (filter (\<lambda>b. pageInstanceIds b \<noteq> [])
       (map (\<lambda>b. b\<lparr>pageInstanceIds := filter P (pageInstanceIds b)\<rparr>) bs))
   \<Longrightarrow> pageInstanceIds b \<noteq> [] \<and> set (pageInstanceIds b) \<subseteq> {i. P i}"
  by auto

lemma in_stripped_catalogs:
  "c \<in> set (filter (\<lambda>c. bookInstanceIds c \<noteq> [])
       (map (\<lambda>c. c\<lparr>bookInstanceIds := filter P (bookInstanceIds c)\<rparr>) cs))
   \<Longrightarrow> bookInstanceIds c \<noteq> [] \<and> set (bookInstanceIds c) \<subseteq> {i. P i}"
  by auto

lemma in_stripped_bookTemplates:
  "b \<in> set (filter (\<lambda>b. pageTemplateIds b \<noteq> [])
       (map (\<lambda>b. b\<lparr>pageTemplateIds := filter P (pageTemplateIds b)\<rparr>) bs))
   \<Longrightarrow> pageTemplateIds b \<noteq> [] \<and> set (pageTemplateIds b) \<subseteq> {i. P i}"
  by auto

lemma in_stripped_catalogTemplates:
  "c \<in> set (filter (\<lambda>c. bookTemplateIds c \<noteq> [])
       (map (\<lambda>c. c\<lparr>bookTemplateIds := filter P (bookTemplateIds c)\<rparr>) cs))
   \<Longrightarrow> bookTemplateIds c \<noteq> [] \<and> set (bookTemplateIds c) \<subseteq> {i. P i}"
  by auto

section \<open>Removing twice\<close>

lemma rPI_idem: "removePageInstance x (removePageInstance x s) = removePageInstance x s"
proof -
  let ?s = "removePageInstance x s"
  have b: "books (removePageInstance x ?s) = books ?s"
    unfolding books_rPI[of x ?s]
  proof (rule keep_all)
    fix b assume "b \<in> set (books ?s)"
    from in_stripped_books[OF this[unfolded books_rPI]]
    show "b\<lparr>pageInstanceIds := filter (\<lambda>i. i \<noteq> x) (pageInstanceIds b)\<rparr> = b \<and> pageInstanceIds b \<noteq> []"
      by (simp add: strip_fix_books)
  qed
  have c: "catalogs (removePageInstance x ?s) = catalogs ?s"
    unfolding catalogs_rPI[of x ?s] b
  proof (rule keep_all)
    fix c assume "c \<in> set (catalogs ?s)"
    from in_stripped_catalogs[OF this[unfolded catalogs_rPI]]
    show "c\<lparr>bookInstanceIds := filter (\<lambda>i. i \<notin> bi_id ` set (books ?s) - bi_id ` set (books ?s)) (bookInstanceIds c)\<rparr> = c \<and> bookInstanceIds c \<noteq> []"
      by (simp add: strip_fix_catalogs)
  qed
  show ?thesis by (rule TemplateState.equality) (simp_all add: b c fields_rPI)
qed

lemma rBI_idem: "removeBookInstance x (removeBookInstance x s) = removeBookInstance x s"
proof -
  let ?s = "removeBookInstance x s"
  have c: "catalogs (removeBookInstance x ?s) = catalogs ?s"
    unfolding fields_rBI(6)[of x ?s]
  proof (rule keep_all)
    fix c assume "c \<in> set (catalogs ?s)"
    from in_stripped_catalogs[OF this[unfolded fields_rBI(6)]]
    show "c\<lparr>bookInstanceIds := filter (\<lambda>i. i \<noteq> x) (bookInstanceIds c)\<rparr> = c \<and> bookInstanceIds c \<noteq> []"
      by (simp add: strip_fix_catalogs)
  qed
  show ?thesis by (rule TemplateState.equality) (simp_all add: c fields_rBI(1-5))
qed

lemma rCI_idem: "removeCatalogInstance x (removeCatalogInstance x s) = removeCatalogInstance x s"
  by (rule TemplateState.equality) (simp_all add: fields_rCI)

lemma rCT_idem: "removeCatalogTemplate x (removeCatalogTemplate x s) = removeCatalogTemplate x s"
  by (rule TemplateState.equality) (simp_all add: fields_rCT)

lemma rBT_idem: "removeBookTemplate t (removeBookTemplate t s) = removeBookTemplate t s"
proof -
  let ?s = "removeBookTemplate t s"
  have ct: "catalogTemplates (removeBookTemplate t ?s) = catalogTemplates ?s"
    unfolding catalogTemplates_rBT[of t ?s]
  proof (rule keep_all)
    fix c assume "c \<in> set (catalogTemplates ?s)"
    from in_stripped_catalogTemplates[OF this[unfolded catalogTemplates_rBT]]
    show "c\<lparr>bookTemplateIds := filter (\<lambda>i. i \<noteq> t) (bookTemplateIds c)\<rparr> = c \<and> bookTemplateIds c \<noteq> []"
      by (simp add: strip_fix_catalogTemplates)
  qed
  have "filter (\<lambda>b. bi_templateId b = t) (books ?s) = []"
    by (simp add: books_rBT)
  then have c: "catalogs (removeBookTemplate t ?s) = catalogs ?s"
    unfolding catalogs_rBT[of t ?s] by simp
  show ?thesis by (rule TemplateState.equality) (simp_all add: c ct fields_rBT)
qed

lemma rPT_idem: "removePageTemplate t (removePageTemplate t s) = removePageTemplate t s"
proof -
  let ?s = "removePageTemplate t s"
  have bt: "bookTemplates (removePageTemplate t ?s) = bookTemplates ?s"
    unfolding bookTemplates_rPT[of t ?s]
  proof (rule keep_all)
    fix b assume "b \<in> set (bookTemplates ?s)"
    from in_stripped_bookTemplates[OF this[unfolded bookTemplates_rPT]]
    show "b\<lparr>pageTemplateIds := filter (\<lambda>i. i \<noteq> t) (pageTemplateIds b)\<rparr> = b \<and> pageTemplateIds b \<noteq> []"
      by (simp add: strip_fix_bookTemplates)
  qed
  have nop: "filter (\<lambda>p. pi_templateId p = t) (pages ?s) = []"
    by (simp add: pages_rPT)
  have b: "books (removePageTemplate t ?s) = books ?s"
    unfolding books_rPT[of t ?s] bt nop filter_filter
  proof (rule keep_all)
    fix b assume "b \<in> set (books ?s)"
    then have "bi_templateId b \<in> bt_id ` set (bookTemplates ?s) \<and> pageInstanceIds b \<noteq> []"
      unfolding books_rPT[of t s] by auto
    then show "b\<lparr>pageInstanceIds := filter (\<lambda>i. i \<notin> pi_id ` set []) (pageInstanceIds b)\<rparr> = b \<and>
        pageInstanceIds b \<noteq> [] \<and> bi_templateId b \<in> bt_id ` set (bookTemplates ?s)"
      by simp
  qed
  have c: "catalogs (removePageTemplate t ?s) = catalogs ?s"
    unfolding catalogs_rPT[of t ?s] b
  proof (rule keep_all)
    fix c assume "c \<in> set (catalogs ?s)"
    from in_stripped_catalogs[OF this[unfolded catalogs_rPT]]
    show "c\<lparr>bookInstanceIds := filter (\<lambda>i. i \<notin> bi_id ` set (books ?s) - bi_id ` set (books ?s)) (bookInstanceIds c)\<rparr> = c \<and> bookInstanceIds c \<noteq> []"
      by (simp add: strip_fix_catalogs)
  qed
  have ct: "catalogTemplates (removePageTemplate t ?s) = catalogTemplates ?s"
    unfolding catalogTemplates_rPT[of t ?s] bt
  proof (rule keep_all)
    fix c assume "c \<in> set (catalogTemplates ?s)"
    from in_stripped_catalogTemplates[OF this[unfolded catalogTemplates_rPT]]
    show "c\<lparr>bookTemplateIds := filter (\<lambda>i. i \<in> bt_id ` set (bookTemplates ?s)) (bookTemplateIds c)\<rparr> = c \<and> bookTemplateIds c \<noteq> []"
      by (simp add: strip_fix_catalogTemplates)
  qed
  show ?thesis by (rule TemplateState.equality) (simp_all add: b c bt ct fields_rPT)
qed

section \<open>Order of the survivors\<close>

lemma subseq_ids:
  assumes "\<And>x. idf (g x) = idf x"
  shows "subseq (map idf (filter Q (map g xs))) (map idf xs)"
proof -
  have "subseq (map idf (filter Q (map g xs))) (map idf (map g xs))"
    by (rule subseq_map) (rule subseq_filter_left)
  moreover have "map idf (map g xs) = map idf xs"
    using assms by simp
  ultimately show ?thesis by (simp only:)
qed

lemma subseq_ids_filter: "subseq (map idf (filter Q xs)) (map idf xs)"
  by (rule subseq_map) (rule subseq_filter_left)

lemma order_rPT: "order_preserved (removePageTemplate x s) s"
  unfolding order_preserved_def pageTemplates_rPT pages_rPT bookTemplates_rPT
    books_rPT catalogs_rPT catalogTemplates_rPT filter_filter
  by (intro conjI subseq_ids subseq_ids_filter) simp_all

lemma order_rBT: "order_preserved (removeBookTemplate x s) s"
  unfolding order_preserved_def pages_rBT pageTemplates_rBT bookTemplates_rBT books_rBT
    catalogTemplates_rBT catalogs_rBT
  by (intro conjI subseq_ids subseq_ids_filter list_emb_refl) simp_all

lemma order_rCT: "order_preserved (removeCatalogTemplate x s) s"
  unfolding order_preserved_def fields_rCT
  by (intro conjI subseq_ids subseq_ids_filter list_emb_refl) simp_all

lemma order_rPI: "order_preserved (removePageInstance x s) s"
  unfolding order_preserved_def fields_rPI books_rPI catalogs_rPI
  by (intro conjI subseq_ids subseq_ids_filter list_emb_refl) simp_all

lemma order_rBI: "order_preserved (removeBookInstance x s) s"
  unfolding order_preserved_def fields_rBI
  by (intro conjI subseq_ids subseq_ids_filter list_emb_refl) simp_all

lemma order_rCI: "order_preserved (removeCatalogInstance x s) s"
  unfolding order_preserved_def fields_rCI
  by (intro conjI subseq_ids subseq_ids_filter list_emb_refl) simp_all

section \<open>The cascade of removePageInstance\<close>

lemma mem_books_rPI:
  "b' \<in> set (books (removePageInstance x s)) \<longleftrightarrow>
     (\<exists>b \<in> set (books s).
        b' = b\<lparr>pageInstanceIds := filter (\<lambda>i. i \<noteq> x) (pageInstanceIds b)\<rparr> \<and>
        pageInstanceIds b' \<noteq> [])"
  unfolding books_rPI by auto

lemma mem_catalogs_rPI:
  "c' \<in> set (catalogs (removePageInstance x s)) \<longleftrightarrow>
     (\<exists>c \<in> set (catalogs s).
        c' = c\<lparr>bookInstanceIds :=
               filter (\<lambda>i. i \<notin> bi_id ` set (books s) - bi_id ` set (books (removePageInstance x s)))
                 (bookInstanceIds c)\<rparr> \<and>
        bookInstanceIds c' \<noteq> [])"
  unfolding catalogs_rPI by auto

lemma same_id_same_entity:
  "distinct (map f xs) \<Longrightarrow> a \<in> set xs \<Longrightarrow> b \<in> set xs \<Longrightarrow> f a = f b \<Longrightarrow> a = b"
  by (meson distinct_map inj_onD)

lemma filter_neq_empty_iff:
  "x \<in> set l \<Longrightarrow> filter (\<lambda>i. i \<noteq> x) l = [] \<longleftrightarrow> set l = {x}"
  by (auto simp: filter_empty_conv)

lemma removePageInstance_book_cases:
  assumes B: "B \<in> set (books s)" and x: "x \<in> set (pageInstanceIds B)"
  shows "(if set (pageInstanceIds B) = {x}
          then B\<lparr>pageInstanceIds := filter (\<lambda>i. i \<noteq> x) (pageInstanceIds B)\<rparr>
                 \<notin> set (books (removePageInstance x s))
          else B\<lparr>pageInstanceIds := filter (\<lambda>i. i \<noteq> x) (pageInstanceIds B)\<rparr>
                 \<in> set (books (removePageInstance x s)) \<and>
               x \<notin> set (pageInstanceIds
                 (B\<lparr>pageInstanceIds := filter (\<lambda>i. i \<noteq> x) (pageInstanceIds B)\<rparr>))) \<and>
         B \<notin> set (books (removePageInstance x s)) \<and>
         (distinct (map bi_id (books s)) \<longrightarrow>
            (bi_id B \<notin> bi_id ` set (books (removePageInstance x s))
               \<longleftrightarrow> set (pageInstanceIds B) = {x}))"
proof -
  let ?B' = "B\<lparr>pageInstanceIds := filter (\<lambda>i. i \<noteq> x) (pageInstanceIds B)\<rparr>"
  let ?s' = "removePageInstance x s"
  have emp: "filter (\<lambda>i. i \<noteq> x) (pageInstanceIds B) = [] \<longleftrightarrow> set (pageInstanceIds B) = {x}"
    by (rule filter_neq_empty_iff[OF x])
  have B'_in: "?B' \<in> set (books ?s')" if "set (pageInstanceIds B) \<noteq> {x}"
    unfolding mem_books_rPI using B that emp by (intro bexI[of _ B]) simp_all
  have B'_out: "?B' \<notin> set (books ?s')" if "set (pageInstanceIds B) = {x}"
  proof
    assume "?B' \<in> set (books ?s')"
    then have "pageInstanceIds ?B' \<noteq> []" unfolding mem_books_rPI by blast
    with that emp show False by simp
  qed
  have B_out: "B \<notin> set (books ?s')"
  proof
    assume "B \<in> set (books ?s')"
    from in_stripped_books[OF this[unfolded books_rPI]] x show False by auto
  qed
  have by_id: "bi_id B \<notin> bi_id ` set (books ?s') \<longleftrightarrow> set (pageInstanceIds B) = {x}"
    if d: "distinct (map bi_id (books s))"
  proof
    assume "bi_id B \<notin> bi_id ` set (books ?s')"
    moreover have "bi_id ?B' = bi_id B" by simp
    ultimately have "?B' \<notin> set (books ?s')" by (metis imageI)
    with B'_in show "set (pageInstanceIds B) = {x}" by blast
  next
    assume only: "set (pageInstanceIds B) = {x}"
    show "bi_id B \<notin> bi_id ` set (books ?s')"
    proof
      assume "bi_id B \<in> bi_id ` set (books ?s')"
      then obtain b' where b': "b' \<in> set (books ?s')" and id: "bi_id b' = bi_id B" by force
      from b' obtain b where b: "b \<in> set (books s)"
        and eq: "b' = b\<lparr>pageInstanceIds := filter (\<lambda>i. i \<noteq> x) (pageInstanceIds b)\<rparr>"
        unfolding mem_books_rPI by blast
      from eq id have "bi_id b = bi_id B" by simp
      with d b B have "b = B" by (rule same_id_same_entity)
      with eq b' B'_out[OF only] show False by simp
    qed
  qed
  show ?thesis using B'_in B'_out B_out by_id by simp
qed

lemma removePageInstance_empty_book:
  assumes B: "B \<in> set (books s)" and e: "pageInstanceIds B = []"
  shows "B \<notin> set (books (removePageInstance x s)) \<and>
         (distinct (map bi_id (books s)) \<longrightarrow> bi_id B \<notin> bi_id ` set (books (removePageInstance x s)))"
proof -
  let ?s' = "removePageInstance x s"
  have ne: "pageInstanceIds b \<noteq> []" if "b \<in> set (books ?s')" for b
    using that unfolding mem_books_rPI by blast
  have 1: "B \<notin> set (books ?s')" using ne e by blast
  have 2: "bi_id B \<notin> bi_id ` set (books ?s')" if d: "distinct (map bi_id (books s))"
  proof
    assume "bi_id B \<in> bi_id ` set (books ?s')"
    then obtain b' where b': "b' \<in> set (books ?s')" and id: "bi_id b' = bi_id B" by force
    from b' obtain b where b: "b \<in> set (books s)"
      and eq: "b' = b\<lparr>pageInstanceIds := filter (\<lambda>i. i \<noteq> x) (pageInstanceIds b)\<rparr>"
      unfolding mem_books_rPI by blast
    from eq id have "bi_id b = bi_id B" by simp
    with d b B have "b = B" by (rule same_id_same_entity)
    with eq e have "pageInstanceIds b' = []" by simp
    with ne[OF b'] show False by simp
  qed
  show ?thesis using 1 2 by simp
qed

lemma removePageInstance_emptied_catalog:
  assumes C: "C \<in> set (catalogs s)"
    and all: "set (bookInstanceIds C) \<subseteq> bi_id ` set (books s) - bi_id ` set (books (removePageInstance x s))"
  shows "C \<notin> set (catalogs (removePageInstance x s)) \<and>
         (distinct (map ci_id (catalogs s)) \<longrightarrow> ci_id C \<notin> ci_id ` set (catalogs (removePageInstance x s)))"
proof -
  let ?s' = "removePageInstance x s"
  let ?R = "bi_id ` set (books s) - bi_id ` set (books ?s')"
  have emp: "filter (\<lambda>i. i \<notin> ?R) (bookInstanceIds C) = []"
    using all by (auto simp: filter_empty_conv)
  have 1: "C \<notin> set (catalogs ?s')"
  proof
    assume "C \<in> set (catalogs ?s')"
    from in_stripped_catalogs[OF this[unfolded catalogs_rPI]]
    have ne: "bookInstanceIds C \<noteq> []" and sub: "set (bookInstanceIds C) \<subseteq> {i. i \<notin> ?R}"
      by simp_all
    from ne obtain i where i: "i \<in> set (bookInstanceIds C)"
      by (cases "bookInstanceIds C") auto
    from i all have "i \<in> ?R" by (rule subsetD[rotated])
    moreover from i sub have "i \<notin> ?R" by blast
    ultimately show False by simp
  qed
  have 2: "ci_id C \<notin> ci_id ` set (catalogs ?s')" if d: "distinct (map ci_id (catalogs s))"
  proof
    assume "ci_id C \<in> ci_id ` set (catalogs ?s')"
    then obtain c' where c': "c' \<in> set (catalogs ?s')" and id: "ci_id c' = ci_id C" by force
    from c' obtain c where c: "c \<in> set (catalogs s)"
      and eq: "c' = c\<lparr>bookInstanceIds := filter (\<lambda>i. i \<notin> ?R) (bookInstanceIds c)\<rparr>"
      and ne: "bookInstanceIds c' \<noteq> []"
      unfolding mem_catalogs_rPI by blast
    from eq id have "ci_id c = ci_id C" by simp
    with d c C have "c = C" by (rule same_id_same_entity)
    with eq emp ne show False by simp
  qed
  show ?thesis using 1 2 by simp
qed

section \<open>The invariants, operation by operation\<close>

lemma invariant1_pages_iff:
  "invariant1_pages s \<longleftrightarrow> (\<forall>p \<in> set (pages s). pi_templateId p \<in> pt_id ` set (pageTemplates s))"
  by (simp add: invariant1_pages_def list_all_iff)

lemma invariant1_books_iff:
  "invariant1_books s \<longleftrightarrow> (\<forall>b \<in> set (books s). bi_templateId b \<in> bt_id ` set (bookTemplates s))"
  by (simp add: invariant1_books_def list_all_iff)

lemma invariant1_catalogs_iff:
  "invariant1_catalogs s \<longleftrightarrow>
     (\<forall>c \<in> set (catalogs s). ci_templateId c \<in> ct_id ` set (catalogTemplates s))"
  by (simp add: invariant1_catalogs_def list_all_iff)

lemma invariant2_iff:
  "invariant2 s \<longleftrightarrow> (\<forall>b \<in> set (books s). set (pageInstanceIds b) \<subseteq> pi_id ` set (pages s))"
  by (auto simp: invariant2_def list_all_iff)

lemma invariant3_iff:
  "invariant3 s \<longleftrightarrow> (\<forall>c \<in> set (catalogs s). set (bookInstanceIds c) \<subseteq> bi_id ` set (books s))"
  by (auto simp: invariant3_def list_all_iff)

lemma invariant4_iff:
  "invariant4 s \<longleftrightarrow>
     (\<forall>t \<in> set (bookTemplates s). set (pageTemplateIds t) \<subseteq> pt_id ` set (pageTemplates s)) \<and>
     (\<forall>t \<in> set (catalogTemplates s). set (bookTemplateIds t) \<subseteq> bt_id ` set (bookTemplates s))"
  by (auto simp: invariant4_def list_all_iff)

lemma composites_nonempty_iff:
  "composites_nonempty s \<longleftrightarrow>
     (\<forall>t \<in> set (bookTemplates s). pageTemplateIds t \<noteq> []) \<and>
     (\<forall>t \<in> set (catalogTemplates s). bookTemplateIds t \<noteq> [])"
  by (simp add: composites_nonempty_def list_all_iff)

lemma instances_nonempty_iff:
  "instances_nonempty s \<longleftrightarrow>
     (\<forall>b \<in> set (books s). pageInstanceIds b \<noteq> []) \<and>
     (\<forall>c \<in> set (catalogs s). bookInstanceIds c \<noteq> [])"
  by (simp add: instances_nonempty_def list_all_iff)

text \<open>Membership in a stripped collection, with the entity it came from.\<close>

lemma stripped_books_origin:
  "b' \<in> set (filter (\<lambda>b. pageInstanceIds b \<noteq> [])
       (map (\<lambda>b. b\<lparr>pageInstanceIds := filter P (pageInstanceIds b)\<rparr>) bs))
   \<Longrightarrow> \<exists>b \<in> set bs. bi_id b' = bi_id b \<and> bi_templateId b' = bi_templateId b \<and>
         pageInstanceIds b' = filter P (pageInstanceIds b)"
  by auto

lemma stripped_catalogs_origin:
  "c' \<in> set (filter (\<lambda>c. bookInstanceIds c \<noteq> [])
       (map (\<lambda>c. c\<lparr>bookInstanceIds := filter P (bookInstanceIds c)\<rparr>) cs))
   \<Longrightarrow> \<exists>c \<in> set cs. ci_id c' = ci_id c \<and> ci_templateId c' = ci_templateId c \<and>
         bookInstanceIds c' = filter P (bookInstanceIds c)"
  by auto

lemma stripped_bookTemplates_origin:
  "b' \<in> set (filter (\<lambda>b. pageTemplateIds b \<noteq> [])
       (map (\<lambda>b. b\<lparr>pageTemplateIds := filter P (pageTemplateIds b)\<rparr>) bs))
   \<Longrightarrow> \<exists>b \<in> set bs. bt_id b' = bt_id b \<and> pageTemplateIds b' = filter P (pageTemplateIds b)"
  by auto

lemma stripped_catalogTemplates_origin:
  "c' \<in> set (filter (\<lambda>c. bookTemplateIds c \<noteq> [])
       (map (\<lambda>c. c\<lparr>bookTemplateIds := filter P (bookTemplateIds c)\<rparr>) cs))
   \<Longrightarrow> \<exists>c \<in> set cs. ct_id c' = ct_id c \<and> bookTemplateIds c' = filter P (bookTemplateIds c)"
  by auto

text \<open>An id that resolved before and is not the removed one still resolves.\<close>

lemma survives_filter:
  "i \<in> f ` set xs \<Longrightarrow> i \<noteq> x \<Longrightarrow> i \<in> f ` set (filter (\<lambda>e. f e \<noteq> x) xs)"
  by auto

subsection \<open>removePageInstance\<close>

lemma inv1p_rPI: "invariant1_pages s \<Longrightarrow> invariant1_pages (removePageInstance x s)"
  unfolding invariant1_pages_iff fields_rPI by simp

lemma inv1b_rPI: "invariant1_books s \<Longrightarrow> invariant1_books (removePageInstance x s)"
  unfolding invariant1_books_iff fields_rPI
proof
  fix b' assume inv: "\<forall>b\<in>set (books s). bi_templateId b \<in> bt_id ` set (bookTemplates s)"
    and "b' \<in> set (books (removePageInstance x s))"
  from stripped_books_origin[OF this(2)[unfolded books_rPI]] inv
  show "bi_templateId b' \<in> bt_id ` set (bookTemplates s)" by auto
qed

lemma inv2_rPI: "invariant2 s \<Longrightarrow> invariant2 (removePageInstance x s)"
  unfolding invariant2_iff fields_rPI
proof
  fix b' assume inv: "\<forall>b\<in>set (books s). set (pageInstanceIds b) \<subseteq> pi_id ` set (pages s)"
    and "b' \<in> set (books (removePageInstance x s))"
  from stripped_books_origin[OF this(2)[unfolded books_rPI]]
  obtain b where b: "b \<in> set (books s)"
    and l: "pageInstanceIds b' = filter (\<lambda>i. i \<noteq> x) (pageInstanceIds b)" by blast
  show "set (pageInstanceIds b') \<subseteq> pi_id ` set (filter (\<lambda>p. pi_id p \<noteq> x) (pages s))"
  proof
    fix i assume "i \<in> set (pageInstanceIds b')"
    with l have "i \<in> set (pageInstanceIds b)" "i \<noteq> x" by simp_all
    with inv b have "i \<in> pi_id ` set (pages s)" by blast
    then show "i \<in> pi_id ` set (filter (\<lambda>p. pi_id p \<noteq> x) (pages s))"
      using \<open>i \<noteq> x\<close> by (rule survives_filter)
  qed
qed

lemma inv3_removed:
  assumes inv: "\<forall>c\<in>set cs. set (bookInstanceIds c) \<subseteq> ids"
    and mem: "c' \<in> set (filter (\<lambda>c. bookInstanceIds c \<noteq> [])
       (map (\<lambda>c. c\<lparr>bookInstanceIds := filter (\<lambda>i. i \<notin> ids - ids') (bookInstanceIds c)\<rparr>) cs))"
  shows "set (bookInstanceIds c') \<subseteq> ids'"
proof -
  from stripped_catalogs_origin[OF mem]
  obtain c where c: "c \<in> set cs"
    and l: "bookInstanceIds c' = filter (\<lambda>i. i \<notin> ids - ids') (bookInstanceIds c)" by blast
  from inv c have "set (bookInstanceIds c) \<subseteq> ids" by blast
  with l show ?thesis by auto
qed

lemma inv3_rPI: "invariant3 s \<Longrightarrow> invariant3 (removePageInstance x s)"
  unfolding invariant3_iff
proof
  fix c' assume inv: "\<forall>c\<in>set (catalogs s). set (bookInstanceIds c) \<subseteq> bi_id ` set (books s)"
    and "c' \<in> set (catalogs (removePageInstance x s))"
  from inv3_removed[OF inv this(2)[unfolded catalogs_rPI]]
  show "set (bookInstanceIds c') \<subseteq> bi_id ` set (books (removePageInstance x s))" .
qed

lemma inv4_rPI: "invariant4 s \<Longrightarrow> invariant4 (removePageInstance x s)"
  unfolding invariant4_iff fields_rPI by simp

lemma cne_rPI: "composites_nonempty s \<Longrightarrow> composites_nonempty (removePageInstance x s)"
  unfolding composites_nonempty_iff fields_rPI by simp

lemma survives_other:
  "i \<in> f ` set xs \<Longrightarrow> i \<notin> f ` set (filter Q xs) \<Longrightarrow> i \<in> f ` set (filter (\<lambda>e. \<not> Q e) xs)"
  by auto

subsection \<open>removePageTemplate\<close>

lemma inv1p_rPT: "invariant1_pages s \<Longrightarrow> invariant1_pages (removePageTemplate t s)"
  unfolding invariant1_pages_iff fields_rPT
proof
  fix p assume inv: "\<forall>p\<in>set (pages s). pi_templateId p \<in> pt_id ` set (pageTemplates s)"
    and "p \<in> set (filter (\<lambda>p. pi_templateId p \<noteq> t) (pages s))"
  then have "pi_templateId p \<in> pt_id ` set (pageTemplates s)" and "pi_templateId p \<noteq> t"
    by simp_all
  then show "pi_templateId p \<in> pt_id ` set (filter (\<lambda>p. pt_id p \<noteq> t) (pageTemplates s))"
    by (rule survives_filter)
qed

lemma inv1b_rPT: "invariant1_books (removePageTemplate t s)"
  unfolding invariant1_books_iff
proof
  fix b assume "b \<in> set (books (removePageTemplate t s))"
  then show "bi_templateId b \<in> bt_id ` set (bookTemplates (removePageTemplate t s))"
    by (subst (asm) books_rPT) simp
qed

lemma inv2_rPT: "invariant2 s \<Longrightarrow> invariant2 (removePageTemplate t s)"
  unfolding invariant2_iff fields_rPT
proof
  fix b' assume inv: "\<forall>b\<in>set (books s). set (pageInstanceIds b) \<subseteq> pi_id ` set (pages s)"
    and "b' \<in> set (books (removePageTemplate t s))"
  then have "b' \<in> set (filter (\<lambda>b. pageInstanceIds b \<noteq> [])
          (map (\<lambda>b. b\<lparr>pageInstanceIds :=
                  filter (\<lambda>i. i \<notin> pi_id ` set (filter (\<lambda>p. pi_templateId p = t) (pages s)))
                    (pageInstanceIds b)\<rparr>) (books s)))"
    by (subst (asm) books_rPT) simp
  from stripped_books_origin[OF this]
  obtain b where b: "b \<in> set (books s)"
    and l: "pageInstanceIds b' =
      filter (\<lambda>i. i \<notin> pi_id ` set (filter (\<lambda>p. pi_templateId p = t) (pages s))) (pageInstanceIds b)"
    by blast
  show "set (pageInstanceIds b') \<subseteq> pi_id ` set (filter (\<lambda>p. pi_templateId p \<noteq> t) (pages s))"
  proof
    fix i assume "i \<in> set (pageInstanceIds b')"
    with l have i: "i \<in> set (pageInstanceIds b)"
      and n: "i \<notin> pi_id ` set (filter (\<lambda>p. pi_templateId p = t) (pages s))" by simp_all
    from inv b i have "i \<in> pi_id ` set (pages s)" by blast
    from survives_other[OF this n]
    show "i \<in> pi_id ` set (filter (\<lambda>p. pi_templateId p \<noteq> t) (pages s))" .
  qed
qed

lemma inv3_rPT: "invariant3 s \<Longrightarrow> invariant3 (removePageTemplate t s)"
  unfolding invariant3_iff
proof
  fix c' assume inv: "\<forall>c\<in>set (catalogs s). set (bookInstanceIds c) \<subseteq> bi_id ` set (books s)"
    and "c' \<in> set (catalogs (removePageTemplate t s))"
  from inv3_removed[OF inv this(2)[unfolded catalogs_rPT]]
  show "set (bookInstanceIds c') \<subseteq> bi_id ` set (books (removePageTemplate t s))" .
qed

lemma inv4_rPT: "invariant4 s \<Longrightarrow> invariant4 (removePageTemplate t s)"
  unfolding invariant4_iff
proof (intro conjI ballI)
  fix b' assume inv: "(\<forall>t\<in>set (bookTemplates s). set (pageTemplateIds t) \<subseteq> pt_id ` set (pageTemplates s)) \<and>
     (\<forall>t\<in>set (catalogTemplates s). set (bookTemplateIds t) \<subseteq> bt_id ` set (bookTemplates s))"
    and "b' \<in> set (bookTemplates (removePageTemplate t s))"
  from stripped_bookTemplates_origin[OF this(2)[unfolded bookTemplates_rPT]]
  obtain b where b: "b \<in> set (bookTemplates s)"
    and l: "pageTemplateIds b' = filter (\<lambda>i. i \<noteq> t) (pageTemplateIds b)" by blast
  show "set (pageTemplateIds b') \<subseteq> pt_id ` set (pageTemplates (removePageTemplate t s))"
    unfolding fields_rPT
  proof
    fix i assume "i \<in> set (pageTemplateIds b')"
    with l have "i \<in> set (pageTemplateIds b)" "i \<noteq> t" by simp_all
    with inv b have "i \<in> pt_id ` set (pageTemplates s)" by blast
    then show "i \<in> pt_id ` set (filter (\<lambda>p. pt_id p \<noteq> t) (pageTemplates s))"
      using \<open>i \<noteq> t\<close> by (rule survives_filter)
  qed
next
  fix c' assume "c' \<in> set (catalogTemplates (removePageTemplate t s))"
  from in_stripped_catalogTemplates[OF this[unfolded catalogTemplates_rPT]]
  show "set (bookTemplateIds c') \<subseteq> bt_id ` set (bookTemplates (removePageTemplate t s))"
    by blast
qed

lemma cne_rPT: "composites_nonempty (removePageTemplate t s)"
  unfolding composites_nonempty_iff
proof (intro conjI ballI)
  fix b' assume "b' \<in> set (bookTemplates (removePageTemplate t s))"
  from in_stripped_bookTemplates[OF this[unfolded bookTemplates_rPT]]
  show "pageTemplateIds b' \<noteq> []" by simp
next
  fix c' assume "c' \<in> set (catalogTemplates (removePageTemplate t s))"
  from in_stripped_catalogTemplates[OF this[unfolded catalogTemplates_rPT]]
  show "bookTemplateIds c' \<noteq> []" by simp
qed

subsection \<open>removeBookTemplate\<close>

lemma inv1p_rBT: "invariant1_pages s \<Longrightarrow> invariant1_pages (removeBookTemplate t s)"
  unfolding invariant1_pages_iff fields_rBT by simp

lemma inv1b_rBT: "invariant1_books s \<Longrightarrow> invariant1_books (removeBookTemplate t s)"
  unfolding invariant1_books_iff fields_rBT
proof
  fix b assume inv: "\<forall>b\<in>set (books s). bi_templateId b \<in> bt_id ` set (bookTemplates s)"
    and "b \<in> set (filter (\<lambda>b. bi_templateId b \<noteq> t) (books s))"
  then have "bi_templateId b \<in> bt_id ` set (bookTemplates s)" and "bi_templateId b \<noteq> t"
    by simp_all
  then show "bi_templateId b \<in> bt_id ` set (filter (\<lambda>b. bt_id b \<noteq> t) (bookTemplates s))"
    by (rule survives_filter)
qed

lemma inv2_rBT: "invariant2 s \<Longrightarrow> invariant2 (removeBookTemplate t s)"
  unfolding invariant2_iff fields_rBT by simp

lemma inv3_rBT: "invariant3 s \<Longrightarrow> invariant3 (removeBookTemplate t s)"
  unfolding invariant3_iff fields_rBT catalogs_rBT
proof
  fix c assume inv: "\<forall>c\<in>set (catalogs s). set (bookInstanceIds c) \<subseteq> bi_id ` set (books s)"
    and "c \<in> set (filter (\<lambda>c. \<forall>i\<in>set (bookInstanceIds c).
            i \<notin> bi_id ` set (filter (\<lambda>b. bi_templateId b = t) (books s))) (catalogs s))"
  then have c: "c \<in> set (catalogs s)"
    and n: "\<forall>i\<in>set (bookInstanceIds c). i \<notin> bi_id ` set (filter (\<lambda>b. bi_templateId b = t) (books s))"
    by simp_all
  show "set (bookInstanceIds c) \<subseteq> bi_id ` set (filter (\<lambda>b. bi_templateId b \<noteq> t) (books s))"
  proof
    fix i assume i: "i \<in> set (bookInstanceIds c)"
    with inv c have "i \<in> bi_id ` set (books s)" by blast
    moreover from n i have "i \<notin> bi_id ` set (filter (\<lambda>b. bi_templateId b = t) (books s))" by blast
    ultimately show "i \<in> bi_id ` set (filter (\<lambda>b. bi_templateId b \<noteq> t) (books s))"
      by (rule survives_other)
  qed
qed

lemma inv4_rBT: "invariant4 s \<Longrightarrow> invariant4 (removeBookTemplate t s)"
  unfolding invariant4_iff fields_rBT
proof (intro conjI ballI)
  fix b assume "(\<forall>t\<in>set (bookTemplates s). set (pageTemplateIds t) \<subseteq> pt_id ` set (pageTemplates s)) \<and>
     (\<forall>t\<in>set (catalogTemplates s). set (bookTemplateIds t) \<subseteq> bt_id ` set (bookTemplates s))"
    and "b \<in> set (filter (\<lambda>b. bt_id b \<noteq> t) (bookTemplates s))"
  then show "set (pageTemplateIds b) \<subseteq> pt_id ` set (pageTemplates s)" by simp
next
  fix c' assume inv: "(\<forall>t\<in>set (bookTemplates s). set (pageTemplateIds t) \<subseteq> pt_id ` set (pageTemplates s)) \<and>
     (\<forall>t\<in>set (catalogTemplates s). set (bookTemplateIds t) \<subseteq> bt_id ` set (bookTemplates s))"
    and "c' \<in> set (catalogTemplates (removeBookTemplate t s))"
  from stripped_catalogTemplates_origin[OF this(2)[unfolded catalogTemplates_rBT]]
  obtain c where c: "c \<in> set (catalogTemplates s)"
    and l: "bookTemplateIds c' = filter (\<lambda>i. i \<noteq> t) (bookTemplateIds c)" by blast
  show "set (bookTemplateIds c') \<subseteq> bt_id ` set (filter (\<lambda>b. bt_id b \<noteq> t) (bookTemplates s))"
  proof
    fix i assume "i \<in> set (bookTemplateIds c')"
    with l have "i \<in> set (bookTemplateIds c)" "i \<noteq> t" by simp_all
    with inv c have "i \<in> bt_id ` set (bookTemplates s)" by blast
    then show "i \<in> bt_id ` set (filter (\<lambda>b. bt_id b \<noteq> t) (bookTemplates s))"
      using \<open>i \<noteq> t\<close> by (rule survives_filter)
  qed
qed

lemma cne_rBT: "composites_nonempty s \<Longrightarrow> composites_nonempty (removeBookTemplate t s)"
  unfolding composites_nonempty_iff fields_rBT
proof (intro conjI ballI)
  fix b assume "(\<forall>t\<in>set (bookTemplates s). pageTemplateIds t \<noteq> []) \<and>
     (\<forall>t\<in>set (catalogTemplates s). bookTemplateIds t \<noteq> [])"
    and "b \<in> set (filter (\<lambda>b. bt_id b \<noteq> t) (bookTemplates s))"
  then show "pageTemplateIds b \<noteq> []" by simp
next
  fix c' assume "c' \<in> set (catalogTemplates (removeBookTemplate t s))"
  from in_stripped_catalogTemplates[OF this[unfolded catalogTemplates_rBT]]
  show "bookTemplateIds c' \<noteq> []" by simp
qed

subsection \<open>removeCatalogTemplate, removeBookInstance, removeCatalogInstance\<close>

lemma inv_rCT:
  "invariant1_pages s \<Longrightarrow> invariant1_pages (removeCatalogTemplate t s)"
  "invariant1_books s \<Longrightarrow> invariant1_books (removeCatalogTemplate t s)"
  "invariant2 s \<Longrightarrow> invariant2 (removeCatalogTemplate t s)"
  "invariant3 s \<Longrightarrow> invariant3 (removeCatalogTemplate t s)"
  "invariant4 s \<Longrightarrow> invariant4 (removeCatalogTemplate t s)"
  "composites_nonempty s \<Longrightarrow> composites_nonempty (removeCatalogTemplate t s)"
  unfolding invariant1_pages_iff invariant1_books_iff invariant2_iff invariant3_iff
    invariant4_iff composites_nonempty_iff fields_rCT
  by simp_all

lemma inv_rCI:
  "invariant1_pages s \<Longrightarrow> invariant1_pages (removeCatalogInstance t s)"
  "invariant1_books s \<Longrightarrow> invariant1_books (removeCatalogInstance t s)"
  "invariant2 s \<Longrightarrow> invariant2 (removeCatalogInstance t s)"
  "invariant3 s \<Longrightarrow> invariant3 (removeCatalogInstance t s)"
  "invariant4 s \<Longrightarrow> invariant4 (removeCatalogInstance t s)"
  "composites_nonempty s \<Longrightarrow> composites_nonempty (removeCatalogInstance t s)"
  unfolding invariant1_pages_iff invariant1_books_iff invariant2_iff invariant3_iff
    invariant4_iff composites_nonempty_iff fields_rCI
  by simp_all

lemma inv_rBI:
  "invariant1_pages s \<Longrightarrow> invariant1_pages (removeBookInstance x s)"
  "invariant1_books s \<Longrightarrow> invariant1_books (removeBookInstance x s)"
  "invariant2 s \<Longrightarrow> invariant2 (removeBookInstance x s)"
  "invariant4 s \<Longrightarrow> invariant4 (removeBookInstance x s)"
  "composites_nonempty s \<Longrightarrow> composites_nonempty (removeBookInstance x s)"
  unfolding invariant1_pages_iff invariant1_books_iff invariant2_iff
    invariant4_iff composites_nonempty_iff fields_rBI(1-5)
  by simp_all

lemma inv3_rBI: "invariant3 s \<Longrightarrow> invariant3 (removeBookInstance x s)"
  unfolding invariant3_iff fields_rBI(5)
proof
  fix c' assume inv: "\<forall>c\<in>set (catalogs s). set (bookInstanceIds c) \<subseteq> bi_id ` set (books s)"
    and "c' \<in> set (catalogs (removeBookInstance x s))"
  from stripped_catalogs_origin[OF this(2)[unfolded fields_rBI(6)]]
  obtain c where c: "c \<in> set (catalogs s)"
    and l: "bookInstanceIds c' = filter (\<lambda>i. i \<noteq> x) (bookInstanceIds c)" by blast
  show "set (bookInstanceIds c') \<subseteq> bi_id ` set (filter (\<lambda>b. bi_id b \<noteq> x) (books s))"
  proof
    fix i assume "i \<in> set (bookInstanceIds c')"
    with l have "i \<in> set (bookInstanceIds c)" "i \<noteq> x" by simp_all
    with inv c have "i \<in> bi_id ` set (books s)" by blast
    then show "i \<in> bi_id ` set (filter (\<lambda>b. bi_id b \<noteq> x) (books s))"
      using \<open>i \<noteq> x\<close> by (rule survives_filter)
  qed
qed

subsection \<open>Create operations, single steps and sequences\<close>

lemma snd_create:
  "snd (createPageTemplate stamp name d fs s) =
     s\<lparr>pageTemplates := pageTemplates s @
        [\<lparr>pt_id = createId ''pt'' stamp, pt_name = name, pt_description = d, pt_fields = fs\<rparr>]\<rparr>"
  "snd (createBookTemplate stamp name d ids s) =
     s\<lparr>bookTemplates := bookTemplates s @
        [\<lparr>bt_id = createId ''bt'' stamp, bt_name = name, bt_description = d, pageTemplateIds = ids\<rparr>]\<rparr>"
  "snd (createCatalogTemplate stamp name d ids s) =
     s\<lparr>catalogTemplates := catalogTemplates s @
        [\<lparr>ct_id = createId ''ct'' stamp, ct_name = name, ct_description = d, bookTemplateIds = ids\<rparr>]\<rparr>"
  "snd (createPageInstance stamp t title vals s) =
     s\<lparr>pages := pages s @
        [\<lparr>pi_id = createId ''p'' stamp, pi_templateId = t, pi_title = title, pi_values = vals\<rparr>]\<rparr>"
  "snd (createBookInstance stamp t title ids s) =
     s\<lparr>books := books s @
        [\<lparr>bi_id = createId ''b'' stamp, bi_templateId = t, bi_title = title, pageInstanceIds = ids\<rparr>]\<rparr>"
  "snd (createCatalogInstance stamp t title ids s) =
     s\<lparr>catalogs := catalogs s @
        [\<lparr>ci_id = createId ''c'' stamp, ci_templateId = t, ci_title = title, bookInstanceIds = ids\<rparr>]\<rparr>"
  by (simp_all add: createPageTemplate_def createBookTemplate_def createCatalogTemplate_def
      createPageInstance_def createBookInstance_def createCatalogInstance_def Let_def)

lemma inv1p_next:
  assumes r: "references_exist c s" and i: "invariant1_pages s"
  shows "invariant1_pages (next_state c s)"
proof (cases c)
  case (RemovePageTemplate x) with i show ?thesis by (simp add: inv1p_rPT)
next
  case (RemoveBookTemplate x) with i show ?thesis by (simp add: inv1p_rBT)
next
  case (RemoveCatalogTemplate x) with i show ?thesis by (simp add: inv_rCT(1))
next
  case (RemovePageInstance x) with i show ?thesis by (simp add: inv1p_rPI)
next
  case (RemoveBookInstance x) with i show ?thesis by (simp add: inv_rBI(1))
next
  case (RemoveCatalogInstance x) with i show ?thesis by (simp add: inv_rCI(1))
qed (use r i in \<open>auto simp: snd_create invariant1_pages_iff list_all_iff\<close>)

lemma inv1b_next:
  assumes r: "references_exist c s" and i: "invariant1_books s"
  shows "invariant1_books (next_state c s)"
proof (cases c)
  case (RemovePageTemplate x) with i show ?thesis by (simp add: inv1b_rPT)
next
  case (RemoveBookTemplate x) with i show ?thesis by (simp add: inv1b_rBT)
next
  case (RemoveCatalogTemplate x) with i show ?thesis by (simp add: inv_rCT(2))
next
  case (RemovePageInstance x) with i show ?thesis by (simp add: inv1b_rPI)
next
  case (RemoveBookInstance x) with i show ?thesis by (simp add: inv_rBI(2))
next
  case (RemoveCatalogInstance x) with i show ?thesis by (simp add: inv_rCI(2))
qed (use r i in \<open>auto simp: snd_create invariant1_books_iff list_all_iff\<close>)

lemma inv2_next:
  assumes r: "references_exist c s" and i: "invariant2 s"
  shows "invariant2 (next_state c s)"
proof (cases c)
  case (RemovePageTemplate x) with i show ?thesis by (simp add: inv2_rPT)
next
  case (RemoveBookTemplate x) with i show ?thesis by (simp add: inv2_rBT)
next
  case (RemoveCatalogTemplate x) with i show ?thesis by (simp add: inv_rCT(3))
next
  case (RemovePageInstance x) with i show ?thesis by (simp add: inv2_rPI)
next
  case (RemoveBookInstance x) with i show ?thesis by (simp add: inv_rBI(3))
next
  case (RemoveCatalogInstance x) with i show ?thesis by (simp add: inv_rCI(3))
qed (use r i in \<open>auto simp: snd_create invariant2_iff list_all_iff\<close>)

lemma inv3_next:
  assumes r: "references_exist c s" and i: "invariant3 s"
  shows "invariant3 (next_state c s)"
proof (cases c)
  case (RemovePageTemplate x) with i show ?thesis by (simp add: inv3_rPT)
next
  case (RemoveBookTemplate x) with i show ?thesis by (simp add: inv3_rBT)
next
  case (RemoveCatalogTemplate x) with i show ?thesis by (simp add: inv_rCT(4))
next
  case (RemovePageInstance x) with i show ?thesis by (simp add: inv3_rPI)
next
  case (RemoveBookInstance x) with i show ?thesis by (simp add: inv3_rBI)
next
  case (RemoveCatalogInstance x) with i show ?thesis by (simp add: inv_rCI(4))
qed (use r i in \<open>auto simp: snd_create invariant3_iff list_all_iff\<close>)

lemma inv4_next:
  assumes r: "references_exist c s" and i: "invariant4 s"
  shows "invariant4 (next_state c s)"
proof (cases c)
  case (RemovePageTemplate x) with i show ?thesis by (simp add: inv4_rPT)
next
  case (RemoveBookTemplate x) with i show ?thesis by (simp add: inv4_rBT)
next
  case (RemoveCatalogTemplate x) with i show ?thesis by (simp add: inv_rCT(5))
next
  case (RemovePageInstance x) with i show ?thesis by (simp add: inv4_rPI)
next
  case (RemoveBookInstance x) with i show ?thesis by (simp add: inv_rBI(4))
next
  case (RemoveCatalogInstance x) with i show ?thesis by (simp add: inv_rCI(5))
qed (use r i in \<open>auto simp: snd_create invariant4_iff list_all_iff\<close>)

lemma cne_next:
  assumes r: "composite_given_references c" and i: "composites_nonempty s"
  shows "composites_nonempty (next_state c s)"
proof (cases c)
  case (RemovePageTemplate x) with i show ?thesis by (simp add: cne_rPT)
next
  case (RemoveBookTemplate x) with i show ?thesis by (simp add: cne_rBT)
next
  case (RemoveCatalogTemplate x) with i show ?thesis by (simp add: inv_rCT(6))
next
  case (RemovePageInstance x) with i show ?thesis by (simp add: cne_rPI)
next
  case (RemoveBookInstance x) with i show ?thesis by (simp add: inv_rBI(5))
next
  case (RemoveCatalogInstance x) with i show ?thesis by (simp add: inv_rCI(6))
qed (use r i in \<open>auto simp: snd_create composites_nonempty_iff\<close>)

lemma snapshots_invariants:
  "trusted cs s \<Longrightarrow>
   invariant1_pages s \<and> invariant1_books s \<and> invariant2 s \<and> invariant3 s \<and> invariant4 s \<Longrightarrow>
   s' \<in> set (snapshots cs s) \<Longrightarrow>
   invariant1_pages s' \<and> invariant1_books s' \<and> invariant2 s' \<and> invariant3 s' \<and> invariant4 s'"
proof (induction cs arbitrary: s)
  case Nil
  then show ?case by simp
next
  case (Cons c cs)
  from Cons.prems(1) have r: "references_exist c s" and t: "trusted cs (next_state c s)"
    by simp_all
  from r Cons.prems(2)
  have step: "invariant1_pages (next_state c s) \<and> invariant1_books (next_state c s) \<and>
      invariant2 (next_state c s) \<and> invariant3 (next_state c s) \<and> invariant4 (next_state c s)"
    by (simp add: inv1p_next inv1b_next inv2_next inv3_next inv4_next)
  from Cons.prems(3) consider "s' = next_state c s" | "s' \<in> set (snapshots cs (next_state c s))"
    by auto
  then show ?case
  proof cases
    case 1 with step show ?thesis by simp
  next
    case 2 from Cons.IH[OF t step 2] show ?thesis .
  qed
qed

lemma snapshots_composites:
  "list_all composite_given_references cs \<Longrightarrow> composites_nonempty s \<Longrightarrow>
   s' \<in> set (snapshots cs s) \<Longrightarrow> composites_nonempty s'"
proof (induction cs arbitrary: s)
  case Nil
  then show ?case by simp
next
  case (Cons c cs)
  from Cons.prems(1,2) have step: "composites_nonempty (next_state c s)"
    by (simp add: cne_next)
  from Cons.prems(3) consider "s' = next_state c s" | "s' \<in> set (snapshots cs (next_state c s))"
    by auto
  then show ?case
  proof cases
    case 1 with step show ?thesis by simp
  next
    case 2 from Cons.IH[OF _ step 2] Cons.prems(1) show ?thesis by simp
  qed
qed

lemma published_request:
  "published (request J c svc) = published svc @ [next_state c (stateSubject svc)]"
  "stateSubject (request J c svc) = next_state c (stateSubject svc)"
  by (simp_all add: request_def setState_def)

lemma published_requests:
  "published (requests J cs svc) = published svc @ snapshots cs (stateSubject svc)"
  by (induction cs arbitrary: svc) (simp_all add: published_request)

lemma defaultState_invariants:
  "invariant1_pages defaultState" "invariant1_books defaultState" "invariant2 defaultState"
  "invariant3 defaultState" "invariant4 defaultState" "composites_nonempty defaultState"
  by (simp_all add: defaultState_def invariant1_pages_def invariant1_books_def invariant2_def
      invariant3_def invariant4_def composites_nonempty_def)

section \<open>Removing an id that is not there\<close>

lemma steady_iff:
  "steady s \<longleftrightarrow>
     (\<forall>p \<in> set (pages s). pi_templateId p \<in> pt_id ` set (pageTemplates s)) \<and>
     (\<forall>b \<in> set (books s). bi_templateId b \<in> bt_id ` set (bookTemplates s)) \<and>
     (\<forall>c \<in> set (catalogs s). ci_templateId c \<in> ct_id ` set (catalogTemplates s)) \<and>
     (\<forall>b \<in> set (books s). set (pageInstanceIds b) \<subseteq> pi_id ` set (pages s)) \<and>
     (\<forall>c \<in> set (catalogs s). set (bookInstanceIds c) \<subseteq> bi_id ` set (books s)) \<and>
     (\<forall>t \<in> set (bookTemplates s). set (pageTemplateIds t) \<subseteq> pt_id ` set (pageTemplates s)) \<and>
     (\<forall>t \<in> set (catalogTemplates s). set (bookTemplateIds t) \<subseteq> bt_id ` set (bookTemplates s)) \<and>
     (\<forall>t \<in> set (bookTemplates s). pageTemplateIds t \<noteq> []) \<and>
     (\<forall>t \<in> set (catalogTemplates s). bookTemplateIds t \<noteq> []) \<and>
     (\<forall>b \<in> set (books s). pageInstanceIds b \<noteq> []) \<and>
     (\<forall>c \<in> set (catalogs s). bookInstanceIds c \<noteq> [])"
  unfolding steady_def invariant1_def invariant1_pages_iff invariant1_books_iff
    invariant1_catalogs_iff invariant2_iff invariant3_iff invariant4_iff
    composites_nonempty_iff instances_nonempty_iff
  by blast

lemma removePageTemplate_absent:
  assumes st: "steady s" and x: "x \<notin> set (map pt_id (pageTemplates s))"
  shows "removePageTemplate x s = s"
proof -
  let ?s = "removePageTemplate x s"
  from x have x': "x \<notin> pt_id ` set (pageTemplates s)" by simp
  note S = st[unfolded steady_iff]
  have pt: "pageTemplates ?s = pageTemplates s"
    unfolding pageTemplates_rPT using x' by (intro filter_True) blast
  have p: "pages ?s = pages s"
    unfolding pages_rPT using S x' by (intro filter_True) blast
  have nop: "filter (\<lambda>p. pi_templateId p = x) (pages s) = []"
    using S x' by (auto simp: filter_empty_conv)
  have bt: "bookTemplates ?s = bookTemplates s"
    unfolding bookTemplates_rPT
  proof (rule keep_all)
    fix b assume b: "b \<in> set (bookTemplates s)"
    with S x' have "set (pageTemplateIds b) \<subseteq> {i. i \<noteq> x}" by blast
    moreover from S b have "pageTemplateIds b \<noteq> []" by blast
    ultimately show "b\<lparr>pageTemplateIds := filter (\<lambda>i. i \<noteq> x) (pageTemplateIds b)\<rparr> = b \<and>
        pageTemplateIds b \<noteq> []"
      by (simp add: strip_fix_bookTemplates)
  qed
  have b: "books ?s = books s"
    unfolding books_rPT bt nop filter_filter
  proof (rule keep_all)
    fix b assume b: "b \<in> set (books s)"
    with S have "pageInstanceIds b \<noteq> []" "bi_templateId b \<in> bt_id ` set (bookTemplates s)"
      by blast+
    then show "b\<lparr>pageInstanceIds := filter (\<lambda>i. i \<notin> pi_id ` set []) (pageInstanceIds b)\<rparr> = b \<and>
        pageInstanceIds b \<noteq> [] \<and> bi_templateId b \<in> bt_id ` set (bookTemplates s)"
      by simp
  qed
  have c: "catalogs ?s = catalogs s"
    unfolding catalogs_rPT b
  proof (rule keep_all)
    fix c assume "c \<in> set (catalogs s)"
    with S have "bookInstanceIds c \<noteq> []" by blast
    then show "c\<lparr>bookInstanceIds := filter (\<lambda>i. i \<notin> bi_id ` set (books s) - bi_id ` set (books s))
         (bookInstanceIds c)\<rparr> = c \<and> bookInstanceIds c \<noteq> []"
      by simp
  qed
  have ct: "catalogTemplates ?s = catalogTemplates s"
    unfolding catalogTemplates_rPT bt
  proof (rule keep_all)
    fix c assume c: "c \<in> set (catalogTemplates s)"
    with S have "set (bookTemplateIds c) \<subseteq> {i. i \<in> bt_id ` set (bookTemplates s)}" by blast
    moreover from S c have "bookTemplateIds c \<noteq> []" by blast
    ultimately show "c\<lparr>bookTemplateIds := filter (\<lambda>i. i \<in> bt_id ` set (bookTemplates s))
         (bookTemplateIds c)\<rparr> = c \<and> bookTemplateIds c \<noteq> []"
      by (simp add: strip_fix_catalogTemplates)
  qed
  show ?thesis by (rule TemplateState.equality) (simp_all add: pt p bt b c ct)
qed

lemma removeBookTemplate_absent:
  assumes st: "steady s" and x: "x \<notin> set (map bt_id (bookTemplates s))"
  shows "removeBookTemplate x s = s"
proof -
  let ?s = "removeBookTemplate x s"
  from x have x': "x \<notin> bt_id ` set (bookTemplates s)" by simp
  note S = st[unfolded steady_iff]
  have bt: "bookTemplates ?s = bookTemplates s"
    unfolding bookTemplates_rBT using x' by (intro filter_True) blast
  have b: "books ?s = books s"
    unfolding books_rBT using S x' by (intro filter_True) blast
  have nob: "filter (\<lambda>b. bi_templateId b = x) (books s) = []"
    using S x' by (auto simp: filter_empty_conv)
  have c: "catalogs ?s = catalogs s"
    unfolding catalogs_rBT nob by simp
  have ct: "catalogTemplates ?s = catalogTemplates s"
    unfolding catalogTemplates_rBT
  proof (rule keep_all)
    fix c assume c: "c \<in> set (catalogTemplates s)"
    with S x' have "set (bookTemplateIds c) \<subseteq> {i. i \<noteq> x}" by blast
    moreover from S c have "bookTemplateIds c \<noteq> []" by blast
    ultimately show "c\<lparr>bookTemplateIds := filter (\<lambda>i. i \<noteq> x) (bookTemplateIds c)\<rparr> = c \<and>
        bookTemplateIds c \<noteq> []"
      by (simp add: strip_fix_catalogTemplates)
  qed
  show ?thesis by (rule TemplateState.equality) (simp_all add: bt b c ct pages_rBT pageTemplates_rBT)
qed

lemma removeCatalogTemplate_absent:
  assumes st: "steady s" and x: "x \<notin> set (map ct_id (catalogTemplates s))"
  shows "removeCatalogTemplate x s = s"
proof -
  from x have x': "x \<notin> ct_id ` set (catalogTemplates s)" by simp
  note S = st[unfolded steady_iff]
  have ct: "catalogTemplates (removeCatalogTemplate x s) = catalogTemplates s"
    unfolding fields_rCT using x' by (intro filter_True) blast
  have c: "catalogs (removeCatalogTemplate x s) = catalogs s"
    unfolding fields_rCT using S x' by (intro filter_True) blast
  show ?thesis by (rule TemplateState.equality) (simp_all add: c ct fields_rCT(1,2,4,5))
qed

lemma removePageInstance_absent:
  assumes st: "steady s" and x: "x \<notin> set (map pi_id (pages s))"
  shows "removePageInstance x s = s"
proof -
  let ?s = "removePageInstance x s"
  from x have x': "x \<notin> pi_id ` set (pages s)" by simp
  note S = st[unfolded steady_iff]
  have p: "pages ?s = pages s"
    unfolding pages_rPI using x' by (intro filter_True) blast
  have b: "books ?s = books s"
    unfolding books_rPI
  proof (rule keep_all)
    fix b assume b: "b \<in> set (books s)"
    with S x' have "set (pageInstanceIds b) \<subseteq> {i. i \<noteq> x}" by blast
    moreover from S b have "pageInstanceIds b \<noteq> []" by blast
    ultimately show "b\<lparr>pageInstanceIds := filter (\<lambda>i. i \<noteq> x) (pageInstanceIds b)\<rparr> = b \<and>
        pageInstanceIds b \<noteq> []"
      by (simp add: strip_fix_books)
  qed
  have c: "catalogs ?s = catalogs s"
    unfolding catalogs_rPI b
  proof (rule keep_all)
    fix c assume "c \<in> set (catalogs s)"
    with S have "bookInstanceIds c \<noteq> []" by blast
    then show "c\<lparr>bookInstanceIds := filter (\<lambda>i. i \<notin> bi_id ` set (books s) - bi_id ` set (books s))
         (bookInstanceIds c)\<rparr> = c \<and> bookInstanceIds c \<noteq> []"
      by simp
  qed
  show ?thesis
    by (rule TemplateState.equality)
       (simp_all add: p b c pageTemplates_rPI bookTemplates_rPI catalogTemplates_rPI)
qed

lemma removeBookInstance_absent:
  assumes st: "steady s" and x: "x \<notin> set (map bi_id (books s))"
  shows "removeBookInstance x s = s"
proof -
  let ?s = "removeBookInstance x s"
  from x have x': "x \<notin> bi_id ` set (books s)" by simp
  note S = st[unfolded steady_iff]
  have b: "books ?s = books s"
    unfolding fields_rBI using x' by (intro filter_True) blast
  have c: "catalogs ?s = catalogs s"
    unfolding fields_rBI(6)
  proof (rule keep_all)
    fix c assume c: "c \<in> set (catalogs s)"
    with S x' have "set (bookInstanceIds c) \<subseteq> {i. i \<noteq> x}" by blast
    moreover from S c have "bookInstanceIds c \<noteq> []" by blast
    ultimately show "c\<lparr>bookInstanceIds := filter (\<lambda>i. i \<noteq> x) (bookInstanceIds c)\<rparr> = c \<and>
        bookInstanceIds c \<noteq> []"
      by (simp add: strip_fix_catalogs)
  qed
  show ?thesis by (rule TemplateState.equality) (simp_all add: b c fields_rBI(1-4))
qed

lemma removeCatalogInstance_absent:
  assumes x: "x \<notin> set (map ci_id (catalogs s))"
  shows "removeCatalogInstance x s = s"
proof -
  from x have x': "x \<notin> ci_id ` set (catalogs s)" by simp
  have c: "catalogs (removeCatalogInstance x s) = catalogs s"
    unfolding fields_rCI using x' by (intro filter_True) blast
  show ?thesis by (rule TemplateState.equality) (simp_all add: c fields_rCI(1-5))
qed

lemma absent_target_noop:
  assumes "steady s" and "absent_target c s"
  shows "next_state c s = s"
  using assms
  by (cases c)
     (simp_all add: removePageTemplate_absent removeBookTemplate_absent
        removeCatalogTemplate_absent removePageInstance_absent removeBookInstance_absent
        removeCatalogInstance_absent del: set_map)

section \<open>Loading and persisting\<close>































section \<open>The example states\<close>

lemma snapshots_scenario1:
  "snapshots scenario1 defaultState ! 3 = scenario1_built"
  "last (snapshots scenario1 defaultState) = defaultState"
  by (simp_all add: scenario1_def scenario1_built_def defaultState_def snd_create createId_def
      removePageTemplate_def Let_def)

lemma steady_library: "steady library"
  by (simp add: steady_def invariant1_def invariant1_pages_def invariant1_books_def
      invariant1_catalogs_def invariant2_def invariant3_def invariant4_def
      composites_nonempty_def instances_nonempty_def library_def)

lemma trusted_scenario1: "trusted scenario1 defaultState"
  by (simp add: scenario1_def defaultState_def snd_create createId_def)

section \<open>Invariant preservation\<close>

text \<open>
  C1. The claim: after every operation of every sequence of create and remove operations
  from the empty state, the published snapshot satisfies invariants 1 to 4. The create
  operations do not look at the ids they are given, so the statement needs the caller's
  contract (\<open>trusted\<close>: every reference id handed to a create operation is an id of the
  current state). Under it every published snapshot satisfies invariant 1 for
  PageInstances and BookInstances, and invariants 2, 3 and 4; and when every composite
  template is created with a non-empty list, no published snapshot holds a composite
  template with an empty list. Nothing is stated about the templateId of a
  CatalogInstance.
\<close>

theorem trusted_requests_keep_invariants:
  assumes "trusted cs defaultState"
    and "s \<in> set (published (requests J cs (empty_service env)))"
  shows "invariant1_pages s \<and> invariant1_books s \<and> invariant2 s \<and> invariant3 s \<and>
         invariant4 s \<and> (list_all composite_given_references cs \<longrightarrow> composites_nonempty s)"
proof -
  from assms(2) have mem: "s \<in> set (snapshots cs defaultState)"
    unfolding published_requests by (simp add: empty_service_def)
  from snapshots_invariants[OF assms(1) _ mem] defaultState_invariants
  have "invariant1_pages s \<and> invariant1_books s \<and> invariant2 s \<and> invariant3 s \<and> invariant4 s"
    by simp
  moreover from snapshots_composites[OF _ defaultState_invariants(6) mem]
  have "list_all composite_given_references cs \<longrightarrow> composites_nonempty s" by simp
  ultimately show ?thesis by simp
qed

text \<open>
  The first scenario of the specification keeps the contract; the snapshot published
  after its four create operations is \<open>scenario1_built\<close>.
\<close>

theorem trusted_requests_keep_invariants_witness:
  "trusted scenario1 defaultState \<and>
   scenario1_built \<in> set (published (requests offline_JSON scenario1 (empty_service None))) \<and>
   list_all composite_given_references scenario1 \<and>
   invariant1_pages scenario1_built \<and> invariant1_books scenario1_built \<and>
   invariant2 scenario1_built \<and> invariant3 scenario1_built \<and> invariant4 scenario1_built \<and>
   composites_nonempty scenario1_built"
proof -
  have m: "scenario1_built \<in> set (published (requests offline_JSON scenario1 (empty_service None)))"
    unfolding published_requests
    by (simp add: empty_service_def scenario1_def scenario1_built_def defaultState_def
        snd_create createId_def)
  have c: "list_all composite_given_references scenario1" by (simp add: scenario1_def)
  from trusted_requests_keep_invariants[OF trusted_scenario1 m] trusted_scenario1 m c
  show ?thesis by simp
qed

text \<open>
  Without the contract the statement fails at the first operation: a PageInstance created
  for a template id that no PageTemplate has is published as it is.
\<close>

theorem create_breaks_invariant1:
  "\<not> (\<forall>s \<in> set (published (requests offline_JSON
                      [CreatePageInstance ''1'' ''pt-0'' ''Orphan'' []] (empty_service None))).
        invariant1 s \<and> invariant2 s \<and> invariant3 s \<and> invariant4 s)"
  unfolding published_requests
  by (simp add: empty_service_def defaultState_def snd_create invariant1_def
      invariant1_pages_def)

text \<open>
  The templateId of a CatalogInstance is left out above because \<open>removeBookTemplate\<close> and
  \<open>removePageTemplate\<close> delete a CatalogTemplate whose list they emptied without
  deleting the CatalogInstances of that template, although \<open>removePageTemplate\<close> does
  cull the BookInstances of a deleted BookTemplate and \<open>removeCatalogTemplate\<close> does
  delete the instances of the template it removes. A sequence that keeps the contract
  reaches a snapshot with such a CatalogInstance.
\<close>

lemma removeBookTemplate_orphans_catalog:
  "trusted orphan_catalog defaultState \<and>
   \<not> invariant1_catalogs (last (snapshots orphan_catalog defaultState))"
  by (simp add: orphan_catalog_def defaultState_def snd_create createId_def
      removeBookTemplate_def Let_def invariant1_catalogs_def)

section \<open>Shape B: removeBookTemplate deletes whole CatalogInstances\<close>

text \<open>
  C2. For every state and every BookTemplate id \<open>T\<close>, the catalogs after
  \<open>removeBookTemplate T\<close> are exactly the catalogs before that list no id of a
  BookInstance whose templateId is \<open>T\<close>, each of them as it was: a CatalogInstance that
  lists one such id is deleted in its entirety, whatever else it lists, and no
  surviving list is filtered.
\<close>

theorem removeBookTemplate_whole_catalogs:
  "catalogs (removeBookTemplate T s) =
     filter (\<lambda>c. \<not> (\<exists>b \<in> set (books s).
                        bi_templateId b = T \<and> bi_id b \<in> set (bookInstanceIds c)))
       (catalogs s)"
  unfolding catalogs_rBT by (rule filter_cong) auto

text \<open>
  In \<open>library\<close> the catalog \<open>c-1\<close> lists \<open>b-1\<close> (of \<open>bt-1\<close>) and \<open>b-2\<close> (of \<open>bt-2\<close>):
  removing \<open>bt-1\<close> deletes it and keeps \<open>c-2\<close>, which lists \<open>b-2\<close> only.
\<close>

theorem removeBookTemplate_whole_catalogs_witness:
  "catalogs (removeBookTemplate ''bt-1'' library) =
     [\<lparr>ci_id = ''c-2'', ci_templateId = ''ct-1'', ci_title = ''C2'', bookInstanceIds = [''b-2'']\<rparr>]"
  using removeBookTemplate_whole_catalogs[of "''bt-1''" library]
  by (simp add: library_def)

section \<open>Removing an absent id\<close>

text \<open>
  C3. The claim: a remove operation whose target id is not the id of any entity of its
  target kind leaves every state as it is, and that state is still published and
  persisted. Every remove operation that strips a reference list also drops the
  entities whose list is empty afterwards, whether or not the target occurred in it, so
  the statement holds for the states in which every reference resolves and no reference
  list is empty (\<open>steady\<close>): there each of the six remove operations returns the state it
  was given, the service publishes that state once more and hands it to
  \<open>persistState\<close>.
\<close>

theorem remove_absent_is_noop:
  assumes "steady (stateSubject svc)" and "absent_target c (stateSubject svc)"
  shows "next_state c (stateSubject svc) = stateSubject svc \<and>
         request J c svc =
           svc\<lparr>published := published svc @ [stateSubject svc],
               window_localStorage := persistState J (stateSubject svc) (window_localStorage svc)\<rparr>"
  using absent_target_noop[OF assms] by (simp add: request_def setState_def)

theorem remove_absent_is_noop_witness:
  "steady library \<and> absent_target (RemovePageTemplate ''pt-9'') library \<and>
   removePageTemplate ''pt-9'' library = library \<and>
   request (snapshot_JSON library) (RemovePageTemplate ''pt-9'')
      \<lparr>stateSubject = library, published = [], window_localStorage = Some roomy_storage\<rparr> =
     \<lparr>stateSubject = library, published = [library],
      window_localStorage = Some (roomy_storage\<lparr>items := [STORAGE_KEY \<mapsto> ''snapshot'']\<rparr>)\<rparr>"
proof -
  have a: "absent_target (RemovePageTemplate ''pt-9'') library" by (simp add: library_def)
  let ?svc = "\<lparr>stateSubject = library, published = [], window_localStorage = Some roomy_storage\<rparr>"
  from remove_absent_is_noop[of ?svc "RemovePageTemplate ''pt-9''" "snapshot_JSON library"]
    steady_library a
  show ?thesis
    by (simp add: persistState_def setItem_def snapshot_JSON_def roomy_storage_def)
qed

text \<open>
  For an arbitrary state the statement fails: \<open>library_with_empty_book\<close> has no page
  \<open>p-9\<close>, and removing \<open>p-9\<close> deletes its book \<open>b-3\<close>.
\<close>

theorem remove_absent_page_changes_state:
  "\<not> (\<forall>s x. x \<notin> set (map pi_id (pages s)) \<longrightarrow> removePageInstance x s = s)"
proof
  assume "\<forall>s x. x \<notin> set (map pi_id (pages s)) \<longrightarrow> removePageInstance x s = s"
  then have "''p-9'' \<notin> set (map pi_id (pages library_with_empty_book)) \<longrightarrow>
      removePageInstance ''p-9'' library_with_empty_book = library_with_empty_book"
    by blast
  then have "books (removePageInstance ''p-9'' library_with_empty_book) = books library_with_empty_book"
    by (simp add: library_with_empty_book_def library_def)
  then show False
    by (simp add: books_rPI library_with_empty_book_def library_def)
qed

section \<open>Idempotence of removal\<close>

text \<open>
  C4. For each of the six remove operations, every state and every id, removing the same
  id twice gives the state that removing it once gives.
\<close>

theorem removal_idempotent:
  "removePageTemplate x (removePageTemplate x s) = removePageTemplate x s \<and>
   removeBookTemplate x (removeBookTemplate x s) = removeBookTemplate x s \<and>
   removeCatalogTemplate x (removeCatalogTemplate x s) = removeCatalogTemplate x s \<and>
   removePageInstance x (removePageInstance x s) = removePageInstance x s \<and>
   removeBookInstance x (removeBookInstance x s) = removeBookInstance x s \<and>
   removeCatalogInstance x (removeCatalogInstance x s) = removeCatalogInstance x s"
  by (simp only: rPT_idem rBT_idem rCT_idem rPI_idem rBI_idem rCI_idem simp_thms)

section \<open>Shape A: removePageInstance and the books that list the page\<close>

text \<open>
  C5. For every state, every BookInstance \<open>B\<close> of it and every PageInstance \<open>P\<close> of it
  whose id is in \<open>B\<close>'s page list: after \<open>removePageInstance\<close> of \<open>P\<close>'s id, \<open>B\<close> with
  \<open>P\<close>'s id filtered out of its list is in the books exactly when \<open>P\<close>'s id was not the
  only element of the list, and that list no longer contains \<open>P\<close>'s id; \<open>B\<close> as it was
  is never in the books; and where book ids are distinct, no book of the result has
  \<open>B\<close>'s id exactly when \<open>P\<close>'s id was the only element of \<open>B\<close>'s list.
\<close>

theorem removePageInstance_cascade_complete:
  assumes "B \<in> set (books s)" and "P \<in> set (pages s)"
    and "pi_id P \<in> set (pageInstanceIds B)"
  shows "(if set (pageInstanceIds B) = {pi_id P}
          then B\<lparr>pageInstanceIds := filter (\<lambda>i. i \<noteq> pi_id P) (pageInstanceIds B)\<rparr>
                 \<notin> set (books (removePageInstance (pi_id P) s))
          else B\<lparr>pageInstanceIds := filter (\<lambda>i. i \<noteq> pi_id P) (pageInstanceIds B)\<rparr>
                 \<in> set (books (removePageInstance (pi_id P) s)) \<and>
               pi_id P \<notin> set (pageInstanceIds
                 (B\<lparr>pageInstanceIds := filter (\<lambda>i. i \<noteq> pi_id P) (pageInstanceIds B)\<rparr>))) \<and>
         B \<notin> set (books (removePageInstance (pi_id P) s)) \<and>
         (distinct (map bi_id (books s)) \<longrightarrow>
            (bi_id B \<notin> bi_id ` set (books (removePageInstance (pi_id P) s))
               \<longleftrightarrow> set (pageInstanceIds B) = {pi_id P}))"
  by (rule removePageInstance_book_cases[OF assms(1,3)])

text \<open>
  In \<open>library\<close> the first book lists \<open>p-1\<close> and \<open>p-2\<close>: removing \<open>p-1\<close> keeps it with
  \<open>p-2\<close> alone.
\<close>

theorem removePageInstance_cascade_complete_witness:
  "hd (books library) \<in> set (books library) \<and> hd (pages library) \<in> set (pages library) \<and>
   pi_id (hd (pages library)) \<in> set (pageInstanceIds (hd (books library))) \<and>
   \<lparr>bi_id = ''b-1'', bi_templateId = ''bt-1'', bi_title = ''B1'', pageInstanceIds = [''p-2'']\<rparr>
      \<in> set (books (removePageInstance ''p-1'' library)) \<and>
   ''b-1'' \<in> bi_id ` set (books (removePageInstance ''p-1'' library))"
proof -
  have 1: "hd (books library) \<in> set (books library)"
    and 2: "hd (pages library) \<in> set (pages library)"
    and 3: "pi_id (hd (pages library)) \<in> set (pageInstanceIds (hd (books library)))"
    by (simp_all add: library_def)
  from removePageInstance_cascade_complete[OF 1 2 3] 1 2 3
  show ?thesis by (simp add: library_def)
qed

section \<open>Round trip through the storage slot\<close>



section \<open>Loading never fails\<close>



section \<open>Order preservation\<close>

text \<open>
  C8. For every remove operation, every state and every id: in each of the six
  collections, the ids of the entities after the operation are a subsequence of the ids
  before it.
\<close>

theorem removal_preserves_order:
  "order_preserved (removePageTemplate x s) s \<and>
   order_preserved (removeBookTemplate x s) s \<and>
   order_preserved (removeCatalogTemplate x s) s \<and>
   order_preserved (removePageInstance x s) s \<and>
   order_preserved (removeBookInstance x s) s \<and>
   order_preserved (removeCatalogInstance x s) s"
  by (simp only: order_rPT order_rBT order_rCT order_rPI order_rBI order_rCI simp_thms)

section \<open>removePageInstance drops every book with an empty list\<close>

text \<open>
  C9. For every state that holds a BookInstance \<open>B\<close> with an empty page list and for
  every id \<open>x\<close>, whether it occurs in the state or not: \<open>B\<close> is not in the books after
  \<open>removePageInstance x\<close> (where book ids are distinct, no book of the result has its
  id), no book of the result has an empty list, and every CatalogInstance all of whose
  book ids belong to books that were removed is not in the catalogs of the result
  (where catalog ids are distinct, no catalog of the result has its id).
\<close>

theorem removePageInstance_drops_empty_books:
  assumes "B \<in> set (books s)" and "pageInstanceIds B = []"
  shows "B \<notin> set (books (removePageInstance x s)) \<and>
         (distinct (map bi_id (books s)) \<longrightarrow>
            bi_id B \<notin> bi_id ` set (books (removePageInstance x s))) \<and>
         (\<forall>b \<in> set (books (removePageInstance x s)). pageInstanceIds b \<noteq> []) \<and>
         (\<forall>C \<in> set (catalogs s).
            set (bookInstanceIds C) \<subseteq>
              bi_id ` set (books s) - bi_id ` set (books (removePageInstance x s)) \<longrightarrow>
            C \<notin> set (catalogs (removePageInstance x s)) \<and>
            (distinct (map ci_id (catalogs s)) \<longrightarrow>
               ci_id C \<notin> ci_id ` set (catalogs (removePageInstance x s))))"
proof -
  have "\<forall>b \<in> set (books (removePageInstance x s)). pageInstanceIds b \<noteq> []"
    by (simp add: mem_books_rPI)
  with removePageInstance_empty_book[OF assms] removePageInstance_emptied_catalog
  show ?thesis by blast
qed

text \<open>
  \<open>library_with_empty_book\<close> holds the book \<open>b-3\<close> with no pages and the catalog \<open>c-3\<close>
  that lists \<open>b-3\<close> alone; \<open>p-9\<close> occurs nowhere in it.
\<close>

theorem removePageInstance_drops_empty_books_witness:
  "last (books library_with_empty_book) \<in> set (books library_with_empty_book) \<and>
   pageInstanceIds (last (books library_with_empty_book)) = [] \<and>
   ''p-9'' \<notin> set (map pi_id (pages library_with_empty_book)) \<and>
   map bi_id (books (removePageInstance ''p-9'' library_with_empty_book)) = [''b-1'', ''b-2''] \<and>
   map ci_id (catalogs (removePageInstance ''p-9'' library_with_empty_book)) = [''c-1'', ''c-2'']"
proof -
  have 1: "last (books library_with_empty_book) \<in> set (books library_with_empty_book)"
    and 2: "pageInstanceIds (last (books library_with_empty_book)) = []"
    by (simp_all add: library_with_empty_book_def library_def)
  from removePageInstance_drops_empty_books[OF 1 2, of "''p-9''"] 1 2
  show ?thesis
    by (simp add: removePageInstance_def Let_def library_with_empty_book_def library_def)
qed

section \<open>Frame of a BookTemplate removal\<close>

text \<open>
  C10. Removing a BookTemplate leaves the \<open>pages\<close> and \<open>pageTemplates\<close> collections
  exactly as they were, for every state and every id: the cascade never deletes or
  modifies a PageInstance or a PageTemplate.
\<close>

theorem removeBookTemplate_frame:
  "pages (removeBookTemplate templateId s) = pages s \<and>
   pageTemplates (removeBookTemplate templateId s) = pageTemplates s"
  by (simp only: pages_rBT pageTemplates_rBT simp_thms)

end
